theory Spec2Isabelle
  imports Main
begin

section \<open>The Typesense export job of openbeta-graphql\<close>

text \<open>
  A shallow embedding of \<^verbatim>\<open>src/db/export/Typesense/Typesense.ts\<close>: the two page
  generators, the collection provisioner, the chunk uploader, the generic pass
  \<^verbatim>\<open>processMongoCollection\<close>, the two record transformers and the entry point
  \<^verbatim>\<open>onDBConnected\<close>.

  Conventions.
  \<^item> A JavaScript number is a value of the type parameter \<open>'n\<close>: the job never
    computes with the numbers of a record, it only moves them.
  \<^item> A field that may be \<^verbatim>\<open>undefined\<close> or \<^verbatim>\<open>null\<close> is an \<open>option\<close>.
  \<^item> An exception is a value of type \<open>error\<close>; a function that may throw
    returns \<open>error + 'a\<close>.
  \<^item> Everything the job does to the outside (client calls, reads of the source
    store, log lines) is appended to a trace, in the order of the calls.
\<close>

subsection \<open>Source records\<close>

text \<open>\<^verbatim>\<open>MUUID\<close> (package uuid-mongodb): a binary UUID; the model keeps its canonical text,
  which is what \<^verbatim>\<open>toUUID().toString()\<close> prints.\<close>

datatype MUUID = MUUID string

fun toUUID_toString :: "MUUID \<Rightarrow> string" where
  "toUUID_toString (MUUID s) = s"

text \<open>\<^verbatim>\<open>Point\<close> (package @turf/helpers): a GeoJSON point, \<^verbatim>\<open>coordinates\<close> is an array
  of numbers.\<close>

record 'n Point =
  coordinates :: "'n list"

record 'n ClimbMetadata =
  climb_id :: "MUUID option"
  areaRef :: MUUID
  lnglat :: "'n Point"

record ClimbContent =
  description :: "string option"

text \<open>A climb document. \<open>'t\<close> is the type of the discipline flags (\<^verbatim>\<open>doc.type\<close>),
  declared in \<^verbatim>\<open>ClimbTypes.js\<close>.\<close>

record ('n, 't) ClimbType =
  name :: string
  fa :: "string option"
  yds :: string
  type :: 't
  safety :: string
  metadata :: "'n ClimbMetadata"
  content :: ClimbContent

text \<open>\<^verbatim>\<open>ClimbExtType\<close>: a climb merged with the two projected fields of its area.\<close>

record ('n, 't) ClimbExtType = "('n, 't) ClimbType" +
  ancestors :: "string list"
  pathTokens :: "string list"

record 'n AreaMetadata =
  area_id :: "MUUID option"
  leaf :: bool
  isDestination :: bool
  lnglat :: "'n Point"

record 'n AreaType =
  area_name :: "string option"
  metadata :: "'n AreaMetadata"
  ancestors :: "string list"
  pathTokens :: "string list"
  totalClimbs :: 'n
  density :: 'n

subsection \<open>Destination documents\<close>

text \<open>A component of a \<^verbatim>\<open>[number, number]\<close> pair is \<open>None\<close> where JavaScript reads
  \<^verbatim>\<open>undefined\<close> (an index beyond the end of the array).\<close>

record 'n ClimbTypeSenseItem =
  climbUUID :: string
  climbName :: string
  climbDesc :: string
  fa :: string
  areaNames :: "string list"
  disciplines :: "string list"
  grade :: string
  safety :: string
  cragLatLng :: "'n option \<times> 'n option"

record 'n AreaTypeSenseItem =
  areaUUID :: string
  name :: string
  pathTokens :: "string list"
  areaLatLng :: "'n option \<times> 'n option"
  leaf :: bool
  isDestination :: bool
  totalClimbs :: 'n
  density :: 'n

text \<open>\<^verbatim>\<open>Object\<close>: what \<^verbatim>\<open>uploadChunk\<close> receives after the cast \<^verbatim>\<open>as Object[]\<close>.\<close>

datatype 'n Object =
    ClimbItem "'n ClimbTypeSenseItem"
  | AreaItem "'n AreaTypeSenseItem"

subsection \<open>Errors\<close>

datatype error =
    TypeError
  | ObjectNotFound
  | ObjectAlreadyExists
  | RequestFailed

subsection \<open>Pure helpers\<close>

text \<open>The operator \<^verbatim>\<open>??\<close>.\<close>

definition nullish :: "'a option \<Rightarrow> 'a \<Rightarrow> 'a" where
  "nullish v d = (case v of None \<Rightarrow> d | Some x \<Rightarrow> x)"

text \<open>An array read \<^verbatim>\<open>xs[i]\<close>: \<^verbatim>\<open>undefined\<close> out of range.\<close>

definition js_index :: "'a list \<Rightarrow> nat \<Rightarrow> 'a option" where
  "js_index xs i = (if i < length xs then Some (xs ! i) else None)"

text \<open>\<^verbatim>\<open>const { coordinates } = geoPoint; return [coordinates[1], coordinates[0]]\<close>\<close>

definition geoToLatLng :: "'n Point \<Rightarrow> 'n option \<times> 'n option" where
  "geoToLatLng geoPoint =
     (let coordinates = coordinates geoPoint
      in (js_index coordinates 1, js_index coordinates 0))"

subsection \<open>The record transformers\<close>

text \<open>
  \<^verbatim>\<open>mongoToTypeSense\<close> of \<^verbatim>\<open>updateClimbTypesense\<close>. The first property of the object
  literal calls \<^verbatim>\<open>toUUID\<close> on \<^verbatim>\<open>doc.metadata.climb_id\<close>: on a record without the
  identifier this throws a TypeError before anything else is evaluated.
  \<^verbatim>\<open>disciplinesToArray\<close> is imported from \<^verbatim>\<open>Utils.js\<close>, which is not among the
  sources; it is a parameter.
\<close>

definition mongoToTypeSense_climb ::
  "('t \<Rightarrow> string list) \<Rightarrow> ('n, 't) ClimbExtType \<Rightarrow> error + 'n ClimbTypeSenseItem" where
  "mongoToTypeSense_climb disciplinesToArray doc =
     (case climb_id (ClimbType.metadata doc) of
        None \<Rightarrow> Inl TypeError
      | Some cid \<Rightarrow> Inr
          \<lparr> climbUUID = toUUID_toString cid,
            climbName = ClimbType.name doc,
            climbDesc = nullish (description (content doc)) '''',
            fa = nullish (ClimbType.fa doc) '''',
            areaNames = ClimbExtType.pathTokens doc,
            disciplines = disciplinesToArray (type doc),
            grade = yds doc,
            safety = ClimbType.safety doc,
            cragLatLng = geoToLatLng (ClimbMetadata.lnglat (ClimbType.metadata doc)) \<rparr>)"

text \<open>\<^verbatim>\<open>mongoToTypeSense\<close> of \<^verbatim>\<open>updateAreaTypesense\<close>.\<close>

definition mongoToTypeSense_area :: "'n AreaType \<Rightarrow> error + 'n AreaTypeSenseItem" where
  "mongoToTypeSense_area doc =
     (case area_id (AreaType.metadata doc) of
        None \<Rightarrow> Inl TypeError
      | Some aid \<Rightarrow> Inr
          \<lparr> areaUUID = toUUID_toString aid,
            name = nullish (area_name doc) '''',
            pathTokens = AreaType.pathTokens doc,
            areaLatLng = geoToLatLng (AreaMetadata.lnglat (AreaType.metadata doc)),
            leaf = AreaMetadata.leaf (AreaType.metadata doc),
            isDestination = AreaMetadata.isDestination (AreaType.metadata doc),
            totalClimbs = AreaType.totalClimbs doc,
            density = AreaType.density doc \<rparr>)"

subsection \<open>The outside world: destination client, log, trace\<close>

text \<open>\<^verbatim>\<open>CollectionCreateSchema\<close> (package typesense). The two schemas of the job,
  \<^verbatim>\<open>climbSchema\<close> and \<^verbatim>\<open>areaSchema\<close>, are declared in \<^verbatim>\<open>TypesenseSchemas.js\<close>, which
  is not among the sources; the job itself reads only their \<^verbatim>\<open>name\<close>.\<close>

record CollectionCreateSchema =
  name :: string

datatype level = INFO | ERROR

text \<open>The lines the job logs: the three template strings, the three fixed messages
  and \<^verbatim>\<open>logger.error(error)\<close> of a caught exception.\<close>

datatype logmsg =
    Dropped string
  | Created string
  | Pushing nat
  | Caught error
  | StartPushing
  | ClimbsPushed
  | AreasPushed

text \<open>An event is one call that leaves the process: a call of the destination
  client, a read of the source store (with its skip and limit), or a log line.\<close>

datatype 'o event =
    CollectionDelete string
  | CollectionCreate CollectionCreateSchema
  | DocumentsImport string "'o list"
  | AreasFind nat nat
  | ClimbsAggregate nat nat
  | Log level logmsg

text \<open>
  The destination client (\<^verbatim>\<open>Client\<close> of package typesense) as the three calls the
  job makes, each a function of the destination's state \<open>'s\<close> that returns the error it
  throws, if any, and the new state. Every property below that is stated for an
  arbitrary client holds whatever the destination does and whenever it fails.
\<close>

record ('s, 'o) Client =
  collections_delete :: "string \<Rightarrow> 's \<Rightarrow> error option \<times> 's"
  collections_create :: "CollectionCreateSchema \<Rightarrow> 's \<Rightarrow> error option \<times> 's"
  documents_import :: "string \<Rightarrow> 'o list \<Rightarrow> 's \<Rightarrow> error option \<times> 's"

record ('s, 'o) world =
  dest :: 's
  trace :: "'o event list"

definition emit :: "'o event \<Rightarrow> ('s, 'o) world \<Rightarrow> ('s, 'o) world" where
  "emit e w = w\<lparr> trace := trace w @ [e] \<rparr>"

text \<open>How an asynchronous function ends: it returns, the process exits with a code,
  or it throws.\<close>

datatype 'w outcome =
    Returned 'w
  | Exited int 'w
  | Threw error 'w

fun world_of :: "'w outcome \<Rightarrow> 'w" where
  "world_of (Returned w) = w"
| "world_of (Exited c w) = w"
| "world_of (Threw e w) = w"

text \<open>Sequencing of two awaited calls: the second runs only if the first returned.
  \<open>None\<close> is a call that never ends.\<close>

definition and_then ::
  "'w outcome option \<Rightarrow> ('w \<Rightarrow> 'w outcome option) \<Rightarrow> 'w outcome option" where
  "and_then r f =
     (case r of
        None \<Rightarrow> None
      | Some (Returned w) \<Rightarrow> f w
      | Some (Exited c w) \<Rightarrow> Some (Exited c w)
      | Some (Threw e w) \<Rightarrow> Some (Threw e w))"

text \<open>
  Modelled from the spec: \<^verbatim>\<open>gracefulExit\<close> is imported from \<^verbatim>\<open>../../index.js\<close>, which is
  not among the sources. The spec calls it the defined exit path: the process
  terminates, with the exit code passed or, when the call passes none, with the
  helper's default. The default is the parameter \<open>dflt\<close>.
\<close>

definition gracefulExit :: "int \<Rightarrow> int option \<Rightarrow> 'w \<Rightarrow> 'w outcome" where
  "gracefulExit dflt exitCode w = Exited (nullish exitCode dflt) w"

subsection \<open>The source store\<close>

record ('n, 't) db =
  climbs :: "('n, 't) ClimbType list"
  areas :: "'n AreaType list"

definition chunkSize :: nat where
  "chunkSize = 5000"

text \<open>
  The aggregation of \<^verbatim>\<open>getAllClimbs\<close> before its skip and limit: \<^verbatim>\<open>$lookup\<close> collects,
  for a climb, the projection (ancestors, pathTokens) of every area whose
  \<^verbatim>\<open>metadata.area_id\<close> equals the climb's \<^verbatim>\<open>metadata.areaRef\<close>; \<^verbatim>\<open>$unwind\<close> emits one
  document for each element of that array (none when it is empty); \<^verbatim>\<open>$replaceWith\<close>
  merges the projection into the climb.
\<close>

definition lookup_areas :: "'n AreaType list \<Rightarrow> ('n, 't) ClimbType \<Rightarrow> (string list \<times> string list) list" where
  "lookup_areas as c =
     map (\<lambda>a. (AreaType.ancestors a, AreaType.pathTokens a))
       (filter (\<lambda>a. area_id (AreaType.metadata a) = Some (areaRef (ClimbType.metadata c))) as)"

definition mergeObjects :: "('n, 't) ClimbType \<Rightarrow> string list \<times> string list \<Rightarrow> ('n, 't) ClimbExtType" where
  "mergeObjects c area = ClimbType.extend c (ClimbExtType.fields (fst area) (snd area))"

definition aggregate_climbs :: "('n, 't) db \<Rightarrow> ('n, 't) ClimbExtType list" where
  "aggregate_climbs d = concat (map (\<lambda>c. map (mergeObjects c) (lookup_areas (areas d) c)) (climbs d))"

subsection \<open>The page generators\<close>

text \<open>
  An asynchronous generator is its state and its \<^verbatim>\<open>next\<close>: a call of \<^verbatim>\<open>next\<close> runs the body
  up to the following \<^verbatim>\<open>yield\<close> (\<open>Some\<close> of the page and the new state) or to the
  \<^verbatim>\<open>return\<close> (\<open>None\<close>). The state of both generators is \<^verbatim>\<open>pageNum\<close>, which starts at 0.
  The source store answers every read and does not change during a run.
\<close>

type_synonym ('a, 'g, 'w) generator = "'g \<times> ('g \<Rightarrow> 'w \<Rightarrow> ('a list \<times> 'g) option \<times> 'w)"

definition getAllClimbs_next ::
  "('n, 't) db \<Rightarrow> nat \<Rightarrow> ('s, 'o) world \<Rightarrow> (('n, 't) ClimbExtType list \<times> nat) option \<times> ('s, 'o) world" where
  "getAllClimbs_next d pageNum w =
     (let page = take chunkSize (drop (pageNum * chunkSize) (aggregate_climbs d));
          w1 = emit (ClimbsAggregate (pageNum * chunkSize) chunkSize) w
      in if length page = 0 then (None, w1) else (Some (page, pageNum + 1), w1))"

definition getAllClimbs ::
  "('n, 't) db \<Rightarrow> (('n, 't) ClimbExtType, nat, ('s, 'o) world) generator" where
  "getAllClimbs d = (0, getAllClimbs_next d)"

definition getAllAreas_next ::
  "('n, 't) db \<Rightarrow> nat \<Rightarrow> ('s, 'o) world \<Rightarrow> ('n AreaType list \<times> nat) option \<times> ('s, 'o) world" where
  "getAllAreas_next d pageNum w =
     (let page = take chunkSize (drop (pageNum * chunkSize) (areas d));
          w1 = emit (AreasFind (pageNum * chunkSize) chunkSize) w
      in if length page = 0 then (None, w1) else (Some (page, pageNum + 1), w1))"

definition getAllAreas :: "('n, 't) db \<Rightarrow> ('n AreaType, nat, ('s, 'o) world) generator" where
  "getAllAreas d = (0, getAllAreas_next d)"

text \<open>
  The loop the two generators share, for any page size \<open>cs\<close> and any query result
  \<open>src\<close>; \<open>ev\<close> names the read. Both generators are this loop at \<open>chunkSize\<close>
  (lemmas \<open>getAllAreas_next_paged\<close> and \<open>getAllClimbs_next_paged\<close>).
\<close>

definition paged_next ::
  "nat \<Rightarrow> (nat \<Rightarrow> nat \<Rightarrow> 'o event) \<Rightarrow> 'a list \<Rightarrow> nat \<Rightarrow> ('s, 'o) world \<Rightarrow> ('a list \<times> nat) option \<times> ('s, 'o) world" where
  "paged_next cs ev src pageNum w =
     (let page = take cs (drop (pageNum * cs) src);
          w1 = emit (ev (pageNum * cs) cs) w
      in if length page = 0 then (None, w1) else (Some (page, pageNum + 1), w1))"

text \<open>Running a generator to its end and keeping the pages
  (\<^verbatim>\<open>for await (const page of gen) pages.push(page)\<close>). A generator that never
  returns gives \<open>None\<close>.\<close>

partial_function (option) collect ::
  "('g \<Rightarrow> 'w \<Rightarrow> ('a list \<times> 'g) option \<times> 'w) \<Rightarrow> 'g \<Rightarrow> 'a list list \<Rightarrow> 'w \<Rightarrow> ('a list list \<times> 'w) option" where
  "collect nxt g pages w =
     (case nxt g w of
        (None, w1) \<Rightarrow> Some (pages, w1)
      | (Some (page, g1), w1) \<Rightarrow> collect nxt g1 (pages @ [page]) w1)"

text \<open>The same for a generator object: \<^verbatim>\<open>next\<close> is called from the generator's own
  initial state.\<close>

definition collect_all :: "('a, 'g, 'w) generator \<Rightarrow> 'w \<Rightarrow> ('a list list \<times> 'w) option" where
  "collect_all gen w = collect (snd gen) (fst gen) [] w"

subsection \<open>Provisioning and upload\<close>

text \<open>\<^verbatim>\<open>checkCollection\<close>: drop the collection (a failure is logged and ignored) and
  create it again (a failure is logged and followed by \<^verbatim>\<open>gracefulExit()\<close>, called
  without an exit code).\<close>

definition checkCollection ::
  "int \<Rightarrow> ('s, 'o) Client \<Rightarrow> CollectionCreateSchema \<Rightarrow> ('s, 'o) world \<Rightarrow> ('s, 'o) world outcome" where
  "checkCollection dflt client schema w =
     (let (r1, d1) = collections_delete client (name schema) (dest w);
          w1 = emit (CollectionDelete (name schema)) (w\<lparr> dest := d1 \<rparr>);
          w2 = (case r1 of
                  None \<Rightarrow> emit (Log ERROR (Dropped (name schema))) w1
                | Some e \<Rightarrow> emit (Log ERROR (Caught e)) w1);
          (r2, d2) = collections_create client schema (dest w2);
          w3 = emit (CollectionCreate schema) (w2\<lparr> dest := d2 \<rparr>)
      in case r2 of
           None \<Rightarrow> Returned (emit (Log ERROR (Created (name schema))) w3)
         | Some e \<Rightarrow> gracefulExit dflt None (emit (Log ERROR (Caught e)) w3))"

text \<open>\<^verbatim>\<open>uploadChunk\<close>: nothing for an empty chunk; otherwise one import call, whose
  failure is logged and swallowed.\<close>

definition uploadChunk ::
  "('s, 'o) Client \<Rightarrow> CollectionCreateSchema \<Rightarrow> 'o list \<Rightarrow> ('s, 'o) world \<Rightarrow> ('s, 'o) world" where
  "uploadChunk client schema chunk w =
     (if length chunk = 0 then w
      else
        let w1 = emit (Log INFO (Pushing (length chunk))) w;
            (r, d1) = documents_import client (name schema) chunk (dest w1);
            w2 = emit (DocumentsImport (name schema) chunk) (w1\<lparr> dest := d1 \<rparr>)
        in case r of
             None \<Rightarrow> w2
           | Some e \<Rightarrow> emit (Log ERROR (Caught e)) w2)"

subsection \<open>One pass\<close>

text \<open>\<^verbatim>\<open>chunk.map(convert)\<close>: the first record on which \<^verbatim>\<open>convert\<close> throws ends the map.\<close>

fun map_convert :: "('a \<Rightarrow> error + 'b) \<Rightarrow> 'a list \<Rightarrow> error + 'b list" where
  "map_convert convert [] = Inr []"
| "map_convert convert (x # xs) =
     (case convert x of
        Inl e \<Rightarrow> Inl e
      | Inr y \<Rightarrow> (case map_convert convert xs of Inl e \<Rightarrow> Inl e | Inr ys \<Rightarrow> Inr (y # ys)))"

text \<open>The \<^verbatim>\<open>for await\<close> loop of \<^verbatim>\<open>processMongoCollection\<close>. The argument of \<^verbatim>\<open>uploadChunk\<close>
  is evaluated first, outside the \<^verbatim>\<open>try\<close> of \<^verbatim>\<open>uploadChunk\<close>: an exception of
  \<^verbatim>\<open>convert\<close> leaves the loop and the function.\<close>

partial_function (option) processMongoCollection_loop ::
  "('s, 'o) Client \<Rightarrow> CollectionCreateSchema \<Rightarrow> ('a \<Rightarrow> error + 'o) \<Rightarrow>
   ('g \<Rightarrow> ('s, 'o) world \<Rightarrow> ('a list \<times> 'g) option \<times> ('s, 'o) world) \<Rightarrow> 'g \<Rightarrow> ('s, 'o) world \<Rightarrow>
   ('s, 'o) world outcome option" where
  "processMongoCollection_loop client schema convert nxt g w =
     (case nxt g w of
        (None, w1) \<Rightarrow> Some (Returned w1)
      | (Some (chunk, g1), w1) \<Rightarrow>
          (case map_convert convert chunk of
             Inl e \<Rightarrow> Some (Threw e w1)
           | Inr objs \<Rightarrow>
               processMongoCollection_loop client schema convert nxt g1
                 (uploadChunk client schema objs w1)))"

text \<open>
  What the module imports from files that are not among the sources: the two
  schemas, \<^verbatim>\<open>disciplinesToArray\<close>, the default exit code of \<^verbatim>\<open>gracefulExit\<close> and the
  constructor of the client (a function of the host and the API key).
\<close>

record ('s, 'n, 't) module_imports =
  climbSchema :: CollectionCreateSchema
  areaSchema :: CollectionCreateSchema
  disciplinesToArray :: "'t \<Rightarrow> string list"
  exit_default :: int
  Typesense_Client :: "string \<Rightarrow> string \<Rightarrow> ('s, 'n Object) Client"

text \<open>\<^verbatim>\<open>processMongoCollection\<close>. The collection it refreshes is \<^verbatim>\<open>areaSchema\<close>, as the
  source has it, whatever \<^verbatim>\<open>schema\<close> it is given; the uploads go to \<^verbatim>\<open>schema\<close>.\<close>

definition processMongoCollection ::
  "('s, 'n, 't) module_imports \<Rightarrow> ('s, 'n Object) Client \<Rightarrow> CollectionCreateSchema \<Rightarrow>
   ('a \<Rightarrow> error + 'n Object) \<Rightarrow> ('a, 'g, ('s, 'n Object) world) generator \<Rightarrow>
   ('s, 'n Object) world \<Rightarrow> ('s, 'n Object) world outcome option" where
  "processMongoCollection I client schema convert dataGenerator w =
     and_then (Some (checkCollection (exit_default I) client (areaSchema I) w))
       (\<lambda>w1. processMongoCollection_loop client schema convert
                (snd dataGenerator) (fst dataGenerator) w1)"

text \<open>The cast \<^verbatim>\<open>as Object[]\<close> is the injection of the item into \<open>Object\<close>.\<close>

definition updateClimbTypesense ::
  "('s, 'n, 't) module_imports \<Rightarrow> ('s, 'n Object) Client \<Rightarrow> ('n, 't) db \<Rightarrow>
   ('s, 'n Object) world \<Rightarrow> ('s, 'n Object) world outcome option" where
  "updateClimbTypesense I client d w =
     processMongoCollection I client (climbSchema I)
       (\<lambda>doc. map_sum id ClimbItem (mongoToTypeSense_climb (disciplinesToArray I) doc))
       (getAllClimbs d) w"

definition updateAreaTypesense ::
  "('s, 'n, 't) module_imports \<Rightarrow> ('s, 'n Object) Client \<Rightarrow> ('n, 't) db \<Rightarrow>
   ('s, 'n Object) world \<Rightarrow> ('s, 'n Object) world outcome option" where
  "updateAreaTypesense I client d w =
     processMongoCollection I client (areaSchema I)
       (\<lambda>doc. map_sum id AreaItem (mongoToTypeSense_area doc))
       (getAllAreas d) w"

subsection \<open>The entry point\<close>

text \<open>\<^verbatim>\<open>onDBConnected\<close>: \<open>env\<close> is \<^verbatim>\<open>process.env\<close>, \<open>argv\<close> is \<^verbatim>\<open>process.argv\<close>.\<close>

definition onDBConnected ::
  "('s, 'n, 't) module_imports \<Rightarrow> (string \<Rightarrow> string option) \<Rightarrow> string list \<Rightarrow> ('n, 't) db \<Rightarrow>
   ('s, 'n Object) world \<Rightarrow> ('s, 'n Object) world outcome option" where
  "onDBConnected I env argv d w =
     (let node = nullish (env ''TYPESENSE_NODE'') '''';
          apiKey = nullish (env ''TYPESENSE_API_KEY'') ''''
      in if node = '''' \<or> apiKey = '''' then Some (gracefulExit (exit_default I) (Some 1) w)
         else
           let typesense = Typesense_Client I node apiKey;
               w1 = emit (Log INFO StartPushing) w
           in and_then
                (if ''--climbs'' \<in> set argv
                 then and_then (updateClimbTypesense I typesense d w1)
                        (\<lambda>w2. Some (Returned (emit (Log INFO ClimbsPushed) w2)))
                 else Some (Returned w1))
                (\<lambda>w3. and_then
                   (if ''--areas'' \<in> set argv
                    then and_then (updateAreaTypesense I typesense d w3)
                           (\<lambda>w4. Some (Returned (emit (Log INFO AreasPushed) w4)))
                    else Some (Returned w3))
                   (\<lambda>w5. Some (gracefulExit (exit_default I) None w5))))"

declare collect.simps [code]

declare processMongoCollection_loop.simps [code]

subsection \<open>Reading a run\<close>

text \<open>The number of pages of \<open>n\<close> records at page size \<open>cs\<close>: \<open>n / cs\<close> rounded up.\<close>

definition page_count :: "nat \<Rightarrow> nat \<Rightarrow> nat" where
  "page_count cs n = (n + cs - 1) div cs"

text \<open>The events of a trace by kind: bulk imports, and provisioning calls (delete and
  create).\<close>

definition is_import :: "'o event \<Rightarrow> bool" where
  "is_import e = (case e of DocumentsImport nm ds \<Rightarrow> True | _ \<Rightarrow> False)"

definition is_provision :: "'o event \<Rightarrow> bool" where
  "is_provision e =
     (case e of CollectionDelete nm \<Rightarrow> True | CollectionCreate s \<Rightarrow> True | _ \<Rightarrow> False)"

text \<open>The pages of a source at page size \<open>cs\<close>: page \<open>i\<close> is the slice of \<open>cs\<close>
  records at offset \<open>i * cs\<close>.\<close>

definition pages_of :: "nat \<Rightarrow> 'a list \<Rightarrow> 'a list list" where
  "pages_of cs src = map (\<lambda>i. take cs (drop (i * cs) src)) [0..<page_count cs (length src)]"

text \<open>An import is well sized when its chunk holds between 1 and \<open>cs\<close> documents;
  the predicate is true of every other event.\<close>

definition chunk_ok :: "nat \<Rightarrow> 'o event \<Rightarrow> bool" where
  "chunk_ok cs e = (case e of DocumentsImport nm ds \<Rightarrow> 1 \<le> length ds \<and> length ds \<le> cs | _ \<Rightarrow> True)"

text \<open>The exit code of a run, if the process exited.\<close>

fun exit_code :: "'w outcome \<Rightarrow> int option" where
  "exit_code (Exited c w) = Some c"
| "exit_code (Returned w) = None"
| "exit_code (Threw e w) = None"

text \<open>
  The loop of \<^verbatim>\<open>processMongoCollection\<close> over a known list of pages: page \<open>p\<close> is read
  (event \<open>rd p\<close>), converted and uploaded, then the next; after the last page one more
  read finds the empty page. Lemma \<open>loop_paged\<close> shows that the loop over a page
  generator is this function on the pages of the source.
\<close>

fun run_pages ::
  "('s, 'o) Client \<Rightarrow> CollectionCreateSchema \<Rightarrow> ('a \<Rightarrow> error + 'o) \<Rightarrow> (nat \<Rightarrow> 'o event) \<Rightarrow>
   nat \<Rightarrow> 'a list list \<Rightarrow> ('s, 'o) world \<Rightarrow> ('s, 'o) world outcome" where
  "run_pages client schema convert rd p [] w = Returned (emit (rd p) w)"
| "run_pages client schema convert rd p (pg # pgs) w =
     (case map_convert convert pg of
        Inl e \<Rightarrow> Threw e (emit (rd p) w)
      | Inr objs \<Rightarrow>
          run_pages client schema convert rd (p + 1) pgs
            (uploadChunk client schema objs (emit (rd p) w)))"

subsection \<open>A destination and sample data\<close>

text \<open>
  Modelled from the spec: the destination search index, a store of named collections
  with delete-collection-by-name, create-collection-with-schema and
  bulk-document-import. Deleting an absent collection is an error, creating one that
  exists is an error, importing into an absent collection is an error. The documents
  of the job carry no \<^verbatim>\<open>id\<close>, so the index numbers them itself: every imported document
  is a new document, and a collection is the list of its documents in import order.
\<close>

type_synonym 'o store = "string \<Rightarrow> 'o list option"

definition store_client :: "('o store, 'o) Client" where
  "store_client =
     \<lparr> collections_delete =
         (\<lambda>nm s. if s nm = None then (Some ObjectNotFound, s) else (None, s(nm := None))),
       collections_create =
         (\<lambda>schema s. if s (name schema) = None then (None, s(name schema \<mapsto> []))
                      else (Some ObjectAlreadyExists, s)),
       documents_import =
         (\<lambda>nm docs s. case s nm of
                         None \<Rightarrow> (Some ObjectNotFound, s)
                       | Some old \<Rightarrow> (None, s(nm \<mapsto> old @ docs))) \<rparr>"

text \<open>A destination that refuses every creation, and one that refuses the import
  of the chunk that holds exactly the given document.\<close>

definition refusing_client :: "('o store, 'o) Client" where
  "refusing_client = store_client\<lparr> collections_create := (\<lambda>schema s. (Some RequestFailed, s)) \<rparr>"

definition flaky_client :: "'o \<Rightarrow> ('o store, 'o) Client" where
  "flaky_client bad =
     store_client\<lparr> documents_import :=
       (\<lambda>nm docs s. if docs = [bad] then (Some RequestFailed, s)
                     else documents_import store_client nm docs s) \<rparr>"

definition ex_area :: "int AreaType" where
  "ex_area =
     \<lparr> AreaType.area_name = Some ''Yosemite'',
       AreaType.metadata =
         \<lparr> AreaMetadata.area_id = Some (MUUID ''a1''), AreaMetadata.leaf = False,
           AreaMetadata.isDestination = True,
           AreaMetadata.lnglat = \<lparr> coordinates = [- 119, 37] \<rparr> \<rparr>,
       AreaType.ancestors = [''a1''],
       AreaType.pathTokens = [''Yosemite''],
       AreaType.totalClimbs = 1,
       AreaType.density = 0 \<rparr>"

definition ex_area2 :: "int AreaType" where
  "ex_area2 =
     \<lparr> AreaType.area_name = None,
       AreaType.metadata =
         \<lparr> AreaMetadata.area_id = Some (MUUID ''a2''), AreaMetadata.leaf = True,
           AreaMetadata.isDestination = False,
           AreaMetadata.lnglat = \<lparr> coordinates = [- 119, 38] \<rparr> \<rparr>,
       AreaType.ancestors = [''a1'', ''a2''],
       AreaType.pathTokens = [''Yosemite'', ''El Capitan''],
       AreaType.totalClimbs = 1,
       AreaType.density = 0 \<rparr>"

definition ex_climb :: "(int, string list) ClimbType" where
  "ex_climb =
     \<lparr> ClimbType.name = ''The Nose'', ClimbType.fa = None, ClimbType.yds = ''5.9'',
       ClimbType.type = [''trad''], ClimbType.safety = ''PG'',
       ClimbType.metadata =
         \<lparr> ClimbMetadata.climb_id = Some (MUUID ''c1''), ClimbMetadata.areaRef = MUUID ''a2'',
           ClimbMetadata.lnglat = \<lparr> coordinates = [- 119, 38] \<rparr> \<rparr>,
       ClimbType.content = \<lparr> description = None \<rparr> \<rparr>"

text \<open>A malformed climb: no identifier.\<close>

definition ex_climb_bad :: "(int, string list) ClimbType" where
  "ex_climb_bad = ex_climb\<lparr> ClimbType.metadata :=
     (ClimbType.metadata ex_climb)\<lparr> ClimbMetadata.climb_id := None \<rparr> \<rparr>"

definition ex_db :: "(int, string list) db" where
  "ex_db = \<lparr> climbs = [ex_climb], areas = [ex_area, ex_area2] \<rparr>"

definition ex_imports :: "(int Object store, int, string list) module_imports" where
  "ex_imports =
     \<lparr> climbSchema = \<lparr> name = ''climbs'' \<rparr>,
       areaSchema = \<lparr> name = ''areas'' \<rparr>,
       disciplinesToArray = (\<lambda>t. t),
       exit_default = 0,
       Typesense_Client = (\<lambda>node apiKey. store_client) \<rparr>"

definition ex_env :: "string \<Rightarrow> string option" where
  "ex_env = [''TYPESENSE_NODE'' \<mapsto> ''search.example.org'', ''TYPESENSE_API_KEY'' \<mapsto> ''xyz'']"

text \<open>An empty destination, and one that already holds an empty collection of climbs.\<close>

definition ex_world :: "(int Object store, int Object) world" where
  "ex_world = \<lparr> dest = Map.empty, trace = [] \<rparr>"

definition ex_world_climbs :: "(int Object store, int Object) world" where
  "ex_world_climbs = \<lparr> dest = [''climbs'' \<mapsto> []], trace = [] \<rparr>"

text \<open>A source of 5001 areas (two pages), the document of the second sample area, an
  area without its identifier, and a source that holds a malformed climb and a
  malformed area.\<close>

definition ex_db_two_pages :: "(int, string list) db" where
  "ex_db_two_pages = \<lparr> climbs = [], areas = replicate 5000 ex_area @ [ex_area2] \<rparr>"

definition ex_area2_item :: "int Object" where
  "ex_area2_item = AreaItem (projr (mongoToTypeSense_area ex_area2))"

definition ex_area_bad :: "int AreaType" where
  "ex_area_bad = ex_area\<lparr> AreaType.metadata :=
     (AreaType.metadata ex_area)\<lparr> AreaMetadata.area_id := None \<rparr> \<rparr>"

definition ex_db_bad :: "(int, string list) db" where
  "ex_db_bad = \<lparr> climbs = [ex_climb, ex_climb_bad], areas = [ex_area, ex_area2, ex_area_bad] \<rparr>"

section \<open>Lemmas\<close>

subsection \<open>Pages\<close>

lemma page_lt_iff:
  assumes "1 \<le> cs"
  shows "(p < page_count cs n) = (p * cs < n)"
proof -
  have "(p < page_count cs n) = (Suc p \<le> (n + cs - 1) div cs)"
    by (simp add: page_count_def Suc_le_eq)
  also have "\<dots> = (Suc p * cs \<le> n + cs - 1)"
    using assms by (simp add: less_eq_div_iff_mult_less_eq)
  also have "\<dots> = (p * cs < n)"
    using assms by auto
  finally show ?thesis .
qed

lemma paged_next_Some:
  assumes "1 \<le> cs" "p * cs < length src"
  shows "paged_next cs ev src p w = (Some (take cs (drop (p * cs) src), p + 1), emit (ev (p * cs) cs) w)"
  using assms by (simp add: paged_next_def Let_def)

lemma paged_next_None:
  assumes "length src \<le> p * cs"
  shows "paged_next cs ev src p w = (None, emit (ev (p * cs) cs) w)"
  using assms by (simp add: paged_next_def Let_def)

lemma getAllAreas_next_paged: "getAllAreas_next d = paged_next chunkSize AreasFind (areas d)"
  by (intro ext) (simp add: getAllAreas_next_def paged_next_def)

lemma getAllClimbs_next_paged:
  "getAllClimbs_next d = paged_next chunkSize ClimbsAggregate (aggregate_climbs d)"
  by (intro ext) (simp add: getAllClimbs_next_def paged_next_def)

lemma chunkSize_pos: "1 \<le> chunkSize"
  by (simp add: chunkSize_def)

lemma upt_page_Cons: "p < k \<Longrightarrow> [p..<k] = p # [p + 1..<k]"
  by (simp add: upt_conv_Cons)

lemma collect_paged:
  assumes cs: "1 \<le> cs"
  shows "p \<le> page_count cs (length src) \<Longrightarrow>
         collect (paged_next cs ev src) p acc w =
           Some (acc @ map (\<lambda>i. take cs (drop (i * cs) src)) [p..<page_count cs (length src)],
                 w\<lparr> trace := trace w @ map (\<lambda>i. ev (i * cs) cs) [p..<page_count cs (length src) + 1] \<rparr>)"
proof (induction "page_count cs (length src) - p" arbitrary: p acc w)
  case 0
  then have pk: "p = page_count cs (length src)" by simp
  have "\<not> p * cs < length src" using page_lt_iff [OF cs, of p "length src"] pk by simp
  then have nx: "paged_next cs ev src p w = (None, emit (ev (p * cs) cs) w)"
    by (simp add: paged_next_None)
  show ?case
    by (subst collect.simps) (simp add: nx pk [symmetric] emit_def)
next
  case (Suc m)
  then have lt: "p < page_count cs (length src)" by simp
  then have "p * cs < length src" using page_lt_iff [OF cs] by simp
  then have nx: "paged_next cs ev src p w =
      (Some (take cs (drop (p * cs) src), p + 1), emit (ev (p * cs) cs) w)"
    using cs by (simp add: paged_next_Some)
  have m: "m = page_count cs (length src) - (p + 1)" using Suc.hyps(2) by simp
  have le: "p + 1 \<le> page_count cs (length src)" using lt by simp
  have lt2: "p < page_count cs (length src) + 1" using lt by simp
  show ?case
    apply (subst collect.simps)
    apply (simp only: nx prod.case option.case)
    apply (subst Suc.hyps(1) [OF m le])
    apply (simp only: upt_page_Cons [OF lt] upt_page_Cons [OF lt2])
    apply (simp add: emit_def)
    done
qed

lemma loop_paged:
  assumes cs: "1 \<le> cs"
  shows "p \<le> page_count cs (length src) \<Longrightarrow>
         processMongoCollection_loop client schema convert (paged_next cs ev src) p w =
           Some (run_pages client schema convert (\<lambda>i. ev (i * cs) cs) p
                   (map (\<lambda>i. take cs (drop (i * cs) src)) [p..<page_count cs (length src)]) w)"
proof (induction "page_count cs (length src) - p" arbitrary: p w)
  case 0
  then have pk: "p = page_count cs (length src)" by simp
  have "\<not> p * cs < length src" using page_lt_iff [OF cs, of p "length src"] pk by simp
  then have nx: "paged_next cs ev src p w = (None, emit (ev (p * cs) cs) w)"
    by (simp add: paged_next_None)
  show ?case
    by (subst processMongoCollection_loop.simps) (simp add: nx pk [symmetric])
next
  case (Suc m)
  then have lt: "p < page_count cs (length src)" by simp
  then have "p * cs < length src" using page_lt_iff [OF cs] by simp
  then have nx: "paged_next cs ev src p w =
      (Some (take cs (drop (p * cs) src), p + 1), emit (ev (p * cs) cs) w)"
    using cs by (simp add: paged_next_Some)
  have m: "m = page_count cs (length src) - Suc p" using Suc.hyps(2) by simp
  have le: "Suc p \<le> page_count cs (length src)" using lt by simp
  show ?case
    apply (subst processMongoCollection_loop.simps)
    apply (simp only: nx prod.case option.case)
    apply (simp only: upt_page_Cons [OF lt] list.map run_pages.simps)
    apply (simp add: Suc.hyps(1) [OF m le] split: sum.split)
    done
qed

text \<open>Facts about the pages of a source.\<close>

lemma page_length:
  "length (take cs (drop (i * cs) src)) = min cs (length src - i * cs)"
  by simp

lemma page_nonempty:
  assumes "1 \<le> cs" "i < page_count cs (length src)"
  shows "take cs (drop (i * cs) src) \<noteq> []"
proof -
  have "i * cs < length src" using assms page_lt_iff by blast
  then show ?thesis using assms(1) by auto
qed

lemma page_full:
  assumes "1 \<le> cs" "i + 1 < page_count cs (length src)"
  shows "length (take cs (drop (i * cs) src)) = cs"
proof -
  have "(i + 1) * cs < length src" using assms page_lt_iff by blast
  then show ?thesis by simp
qed

lemma page_count_eq:
  assumes cs: "1 \<le> cs"
  shows "page_count cs n = n div cs + (if n mod cs = 0 then 0 else 1)"
proof -
  have n: "n = cs * (n div cs) + n mod cs" by simp
  have r: "n mod cs < cs" using cs by simp
  show ?thesis
  proof (cases "n mod cs = 0")
    case True
    have "(n + cs - 1) div cs = n div cs"
    proof (rule div_nat_eqI)
      show "cs * (n div cs) \<le> n + cs - 1" using n cs by linarith
      show "n + cs - 1 < cs * Suc (n div cs)" using n True cs by (simp only: mult_Suc_right; linarith?)
    qed
    with True show ?thesis by (simp add: page_count_def)
  next
    case False
    have "(n + cs - 1) div cs = n div cs + 1"
    proof (rule div_nat_eqI)
      show "cs * (n div cs + 1) \<le> n + cs - 1" using n False cs by (simp only: distrib_left mult_1_right; linarith?)
      show "n + cs - 1 < cs * Suc (n div cs + 1)" using n r cs by (simp only: mult_Suc_right distrib_left mult_1_right; linarith?)
    qed
    with False show ?thesis by (simp add: page_count_def)
  qed
qed

lemma last_page_length:
  assumes cs: "1 \<le> cs" and n: "0 < n"
  shows "n - (page_count cs n - 1) * cs = (if n mod cs = 0 then cs else n mod cs)"
proof -
  have e: "n = cs * (n div cs) + n mod cs" by simp
  show ?thesis
  proof (cases "n mod cs = 0")
    case True
    then have "0 < n div cs" using n cs by (metis e add.right_neutral mult_0_right neq0_conv)
    then obtain q where q: "n div cs = Suc q" by (cases "n div cs") auto
    have "n = cs * Suc q" using e True q by simp
    then show ?thesis using True q cs by (simp add: page_count_eq)
  next
    case False
    have "n - (n div cs) * cs = n mod cs" by (simp add: minus_div_mult_eq_mod)
    then show ?thesis using False cs by (simp add: page_count_eq)
  qed
qed

lemma concat_pages_from:
  assumes cs: "1 \<le> cs"
  shows "p \<le> page_count cs (length src) \<Longrightarrow>
         concat (map (\<lambda>i. take cs (drop (i * cs) src)) [p..<page_count cs (length src)]) = drop (p * cs) src"
proof (induction "page_count cs (length src) - p" arbitrary: p)
  case 0
  then have pk: "p = page_count cs (length src)" by simp
  have "\<not> p * cs < length src" using page_lt_iff [OF cs, of p "length src"] pk by simp
  then show ?case using pk by simp
next
  case (Suc m)
  then have lt: "p < page_count cs (length src)" by simp
  have m: "m = page_count cs (length src) - Suc p" using Suc.hyps(2) by simp
  have le: "Suc p \<le> page_count cs (length src)" using lt by simp
  have "take cs (drop (p * cs) src) @ drop (cs + p * cs) src = drop (p * cs) src"
    by (metis append_take_drop_id drop_drop)
  then show ?case
    using Suc.hyps(1) [OF m le] by (simp add: upt_page_Cons [OF lt])
qed

lemma concat_pages_of: "1 \<le> cs \<Longrightarrow> concat (pages_of cs src) = src"
  using concat_pages_from [of cs 0 src] by (simp add: pages_of_def)

lemma length_pages_of: "length (pages_of cs src) = page_count cs (length src)"
  by (simp add: pages_of_def)

lemma pages_of_nth:
  "i < page_count cs (length src) \<Longrightarrow> pages_of cs src ! i = take cs (drop (i * cs) src)"
  by (simp add: pages_of_def)

lemma pages_of_bounds:
  assumes "1 \<le> cs" "pg \<in> set (pages_of cs src)"
  shows "pg \<noteq> []" and "length pg \<le> cs"
proof -
  from assms(2) obtain i where i: "i < page_count cs (length src)" and pg: "pg = take cs (drop (i * cs) src)"
    by (auto simp: pages_of_def)
  show "pg \<noteq> []" using page_nonempty [OF assms(1) i] pg by simp
  show "length pg \<le> cs" using pg by simp
qed

subsection \<open>uploadChunk\<close>

lemma uploadChunk_Nil: "uploadChunk client schema [] w = w"
  by (simp add: uploadChunk_def)

lemma uploadChunk_trace:
  "chunk \<noteq> [] \<Longrightarrow>
   trace (uploadChunk client schema chunk w) =
     trace w @ [Log INFO (Pushing (length chunk)), DocumentsImport (name schema) chunk] @
       (case fst (documents_import client (name schema) chunk (dest w)) of
          None \<Rightarrow> [] | Some e \<Rightarrow> [Log ERROR (Caught e)])"
  by (simp add: uploadChunk_def emit_def Let_def case_prod_beta split: option.split)

lemma uploadChunk_dest:
  "chunk \<noteq> [] \<Longrightarrow>
   dest (uploadChunk client schema chunk w) = snd (documents_import client (name schema) chunk (dest w))"
  by (simp add: uploadChunk_def emit_def Let_def case_prod_beta split: option.split)

lemma uploadChunk_imports:
  "chunk \<noteq> [] \<Longrightarrow>
   filter is_import (trace (uploadChunk client schema chunk w)) =
     filter is_import (trace w) @ [DocumentsImport (name schema) chunk]"
  by (simp add: uploadChunk_trace is_import_def split: option.split)

lemma uploadChunk_provisions:
  "filter is_provision (trace (uploadChunk client schema chunk w)) = filter is_provision (trace w)"
  by (cases "chunk = []") (simp_all add: uploadChunk_Nil uploadChunk_trace is_provision_def split: option.split)

subsection \<open>checkCollection\<close>

lemma checkCollection_eq:
  "checkCollection dflt client schema w =
     (let r1 = fst (collections_delete client (name schema) (dest w));
          d1 = snd (collections_delete client (name schema) (dest w));
          r2 = fst (collections_create client schema d1);
          d2 = snd (collections_create client schema d1);
          w' = \<lparr> dest = d2,
                 trace = trace w @
                   [CollectionDelete (name schema),
                    Log ERROR (case r1 of None \<Rightarrow> Dropped (name schema) | Some e \<Rightarrow> Caught e),
                    CollectionCreate schema,
                    Log ERROR (case r2 of None \<Rightarrow> Created (name schema) | Some e \<Rightarrow> Caught e)] \<rparr>
      in case r2 of None \<Rightarrow> Returned w' | Some e \<Rightarrow> Exited dflt w')"
  by (simp add: checkCollection_def emit_def Let_def case_prod_beta gracefulExit_def nullish_def
      split: option.split)

lemma checkCollection_not_Threw: "checkCollection dflt client schema w \<noteq> Threw e w'"
  by (simp add: checkCollection_eq Let_def split: option.split)

lemma checkCollection_Exited_code:
  "checkCollection dflt client schema w = Exited c w' \<Longrightarrow> c = dflt"
  by (simp add: checkCollection_eq Let_def split: option.splits)

subsection \<open>map_convert\<close>

lemma map_convert_Inr:
  "map_convert convert xs = Inr ys \<Longrightarrow> ys = map (projr \<circ> convert) xs"
  by (induction xs arbitrary: ys) (auto split: sum.splits)

lemma map_convert_length: "map_convert convert xs = Inr ys \<Longrightarrow> length ys = length xs"
  by (drule map_convert_Inr) simp

lemma map_convert_good:
  "(\<And>x. x \<in> set xs \<Longrightarrow> \<exists>y. convert x = Inr y) \<Longrightarrow> map_convert convert xs = Inr (map (projr \<circ> convert) xs)"
proof (induction xs)
  case Nil
  show ?case by simp
next
  case (Cons x xs)
  obtain y where y: "convert x = Inr y" using Cons.prems [of x] by auto
  have "map_convert convert xs = Inr (map (projr \<circ> convert) xs)"
    using Cons.IH Cons.prems by simp
  with y show ?case by simp
qed

lemma map_convert_append:
  "map_convert convert (xs @ ys) =
     (case map_convert convert xs of
        Inl e \<Rightarrow> Inl e
      | Inr a \<Rightarrow> (case map_convert convert ys of Inl e \<Rightarrow> Inl e | Inr b \<Rightarrow> Inr (a @ b)))"
  by (induction xs) (auto split: sum.splits)

lemma processMongoCollection_paged:
  assumes "1 \<le> cs"
  shows "processMongoCollection I client schema convert (0, paged_next cs ev src) w =
     Some (case checkCollection (exit_default I) client (areaSchema I) w of
             Returned w1 \<Rightarrow> run_pages client schema convert (\<lambda>i. ev (i * cs) cs) 0 (pages_of cs src) w1
           | Exited c w1 \<Rightarrow> Exited c w1
           | Threw e w1 \<Rightarrow> Threw e w1)"
  using loop_paged [OF assms, of 0 src client schema convert ev]
  by (simp add: processMongoCollection_def and_then_def pages_of_def split: outcome.split)

lemma run_pages_provisions:
  assumes "\<And>i. \<not> is_provision (rd i)"
  shows "filter is_provision (trace (world_of (run_pages client schema convert rd p pgs w))) =
         filter is_provision (trace w)"
proof (induction pgs arbitrary: p w)
  case Nil
  show ?case using assms by (simp add: emit_def)
next
  case (Cons pg pgs)
  show ?case
    using assms by (simp add: Cons.IH uploadChunk_provisions emit_def split: sum.split)
qed

lemma uploadChunk_chunk_ok:
  assumes "length chunk \<le> cs" "\<forall>e\<in>set (trace w). chunk_ok cs e"
  shows "\<forall>e\<in>set (trace (uploadChunk client schema chunk w)). chunk_ok cs e"
proof (cases "chunk = []")
  case True
  then show ?thesis using assms by (simp add: uploadChunk_Nil)
next
  case False
  then have "1 \<le> length chunk" by (cases chunk) auto
  then show ?thesis
    using assms False by (auto simp: uploadChunk_trace chunk_ok_def split: option.split)
qed

lemma run_pages_chunk_ok:
  assumes rd: "\<And>i. \<not> is_import (rd i)"
  shows "\<forall>pg\<in>set pgs. length pg \<le> cs \<Longrightarrow> \<forall>e\<in>set (trace w). chunk_ok cs e \<Longrightarrow>
         \<forall>e\<in>set (trace (world_of (run_pages client schema convert rd p pgs w))). chunk_ok cs e"
proof (induction pgs arbitrary: p w)
  case Nil
  have "chunk_ok cs (rd p)" using rd [of p] by (cases "rd p") (auto simp: chunk_ok_def is_import_def)
  then show ?case using Nil by (simp add: emit_def)
next
  case (Cons pg pgs)
  have ok: "chunk_ok cs (rd p)" using rd [of p] by (cases "rd p") (auto simp: chunk_ok_def is_import_def)
  show ?case
  proof (cases "map_convert convert pg")
    case (Inl e)
    then show ?thesis using Cons.prems ok by (simp add: emit_def)
  next
    case (Inr objs)
    have len: "length objs \<le> cs" using map_convert_length [OF Inr] Cons.prems(1) by simp
    have w1: "\<forall>e\<in>set (trace (emit (rd p) w)). chunk_ok cs e"
      using Cons.prems(2) ok by (simp add: emit_def)
    have "\<forall>e\<in>set (trace (uploadChunk client schema objs (emit (rd p) w))). chunk_ok cs e"
      by (rule uploadChunk_chunk_ok [OF len w1])
    then show ?thesis using Inr Cons.IH Cons.prems(1) by simp
  qed
qed

lemma run_pages_good:
  assumes rd: "\<And>i. \<not> is_import (rd i)"
  shows "\<forall>pg\<in>set pgs. pg \<noteq> [] \<Longrightarrow> \<forall>x\<in>set (concat pgs). \<exists>y. convert x = Inr y \<Longrightarrow>
         \<exists>w'. run_pages client schema convert rd p pgs w = Returned w' \<and>
              filter is_import (trace w') =
                filter is_import (trace w) @
                  map (\<lambda>pg. DocumentsImport (name schema) (map (projr \<circ> convert) pg)) pgs"
proof (induction pgs arbitrary: p w)
  case Nil
  show ?case using rd by (simp add: emit_def)
next
  case (Cons pg pgs)
  have good: "map_convert convert pg = Inr (map (projr \<circ> convert) pg)"
    using Cons.prems(2) by (intro map_convert_good) simp
  have ne: "map (projr \<circ> convert) pg \<noteq> []" using Cons.prems(1) by simp
  have imp: "filter is_import (trace (uploadChunk client schema (map (projr \<circ> convert) pg) (emit (rd p) w))) =
             filter is_import (trace w) @ [DocumentsImport (name schema) (map (projr \<circ> convert) pg)]"
    using rd by (simp add: uploadChunk_imports [OF ne] emit_def)
  obtain w' where w': "run_pages client schema convert rd (p + 1) pgs
        (uploadChunk client schema (map (projr \<circ> convert) pg) (emit (rd p) w)) = Returned w'"
      "filter is_import (trace w') =
         filter is_import (trace (uploadChunk client schema (map (projr \<circ> convert) pg) (emit (rd p) w))) @
           map (\<lambda>pg. DocumentsImport (name schema) (map (projr \<circ> convert) pg)) pgs"
    using Cons.IH [of "p + 1" "uploadChunk client schema (map (projr \<circ> convert) pg) (emit (rd p) w)"]
      Cons.prems by auto
  show ?case using good w' imp by simp
qed

lemma run_pages_Threw:
  assumes rd: "\<And>i. \<not> is_import (rd i)"
  shows "\<forall>pg\<in>set pgs. pg \<noteq> [] \<Longrightarrow> map_convert convert (concat pgs) = Inl e \<Longrightarrow>
         \<exists>w' j. run_pages client schema convert rd p pgs w = Threw e w' \<and>
                j < length pgs \<and>
                map_convert convert (pgs ! j) = Inl e \<and>
                last (trace w') = rd (p + j) \<and>
                filter is_import (trace w') =
                  filter is_import (trace w) @
                    map (\<lambda>pg. DocumentsImport (name schema) (map (projr \<circ> convert) pg)) (take j pgs)"
proof (induction pgs arbitrary: p w)
  case Nil
  then show ?case by simp
next
  case (Cons pg pgs)
  show ?case
  proof (cases "map_convert convert pg")
    case (Inl e')
    then have "e' = e" using Cons.prems(2) by (simp add: map_convert_append)
    then have "run_pages client schema convert rd p (pg # pgs) w = Threw e (emit (rd p) w) \<and>
        0 < length (pg # pgs) \<and> map_convert convert ((pg # pgs) ! 0) = Inl e \<and>
        last (trace (emit (rd p) w)) = rd (p + 0) \<and>
        filter is_import (trace (emit (rd p) w)) =
          filter is_import (trace w) @
            map (\<lambda>pg. DocumentsImport (name schema) (map (projr \<circ> convert) pg)) (take 0 (pg # pgs))"
      using Inl rd by (simp add: emit_def)
    then show ?thesis by blast
  next
    case (Inr objs)
    have objs: "objs = map (projr \<circ> convert) pg" by (rule map_convert_Inr [OF Inr])
    have ne: "objs \<noteq> []" using objs Cons.prems(1) by simp
    let ?w1 = "uploadChunk client schema objs (emit (rd p) w)"
    have imp: "filter is_import (trace ?w1) = filter is_import (trace w) @ [DocumentsImport (name schema) objs]"
      using rd by (simp add: uploadChunk_imports [OF ne] emit_def)
    have rest: "map_convert convert (concat pgs) = Inl e"
      using Cons.prems(2) Inr by (simp add: map_convert_append split: sum.splits)
    obtain w' j where j: "run_pages client schema convert rd (p + 1) pgs ?w1 = Threw e w'"
        "j < length pgs" "map_convert convert (pgs ! j) = Inl e" "last (trace w') = rd (p + 1 + j)"
        "filter is_import (trace w') = filter is_import (trace ?w1) @
           map (\<lambda>pg. DocumentsImport (name schema) (map (projr \<circ> convert) pg)) (take j pgs)"
      using Cons.IH [of "p + 1" ?w1, OF _ rest] Cons.prems(1) by auto
    have "run_pages client schema convert rd p (pg # pgs) w = Threw e w' \<and>
        Suc j < length (pg # pgs) \<and> map_convert convert ((pg # pgs) ! Suc j) = Inl e \<and>
        last (trace w') = rd (p + Suc j) \<and>
        filter is_import (trace w') =
          filter is_import (trace w) @
            map (\<lambda>pg. DocumentsImport (name schema) (map (projr \<circ> convert) pg)) (take (Suc j) (pg # pgs))"
      using Inr j imp objs by simp
    then show ?thesis by blast
  qed
qed

subsection \<open>The two passes\<close>

lemma updateAreaTypesense_run:
  "updateAreaTypesense I client d w =
     Some (case checkCollection (exit_default I) client (areaSchema I) w of
             Returned w1 \<Rightarrow>
               run_pages client (areaSchema I) (\<lambda>doc. map_sum id AreaItem (mongoToTypeSense_area doc))
                 (\<lambda>i. AreasFind (i * chunkSize) chunkSize) 0 (pages_of chunkSize (areas d)) w1
           | Exited c w1 \<Rightarrow> Exited c w1
           | Threw e w1 \<Rightarrow> Threw e w1)"
  by (simp add: updateAreaTypesense_def getAllAreas_def getAllAreas_next_paged
      processMongoCollection_paged [OF chunkSize_pos])

lemma updateClimbTypesense_run:
  "updateClimbTypesense I client d w =
     Some (case checkCollection (exit_default I) client (areaSchema I) w of
             Returned w1 \<Rightarrow>
               run_pages client (climbSchema I)
                 (\<lambda>doc. map_sum id ClimbItem (mongoToTypeSense_climb (disciplinesToArray I) doc))
                 (\<lambda>i. ClimbsAggregate (i * chunkSize) chunkSize) 0
                 (pages_of chunkSize (aggregate_climbs d)) w1
           | Exited c w1 \<Rightarrow> Exited c w1
           | Threw e w1 \<Rightarrow> Threw e w1)"
  by (simp add: updateClimbTypesense_def getAllClimbs_def getAllClimbs_next_paged
      processMongoCollection_paged [OF chunkSize_pos])

lemma area_convert_good:
  "area_id (AreaType.metadata a) \<noteq> None \<Longrightarrow>
   \<exists>y. map_sum id AreaItem (mongoToTypeSense_area a) = Inr y \<and>
       y = AreaItem (projr (mongoToTypeSense_area a))"
  by (auto simp: mongoToTypeSense_area_def)

lemma climb_convert_good:
  "climb_id (ClimbType.metadata c) \<noteq> None \<Longrightarrow>
   \<exists>y. map_sum id ClimbItem (mongoToTypeSense_climb dta c) = Inr y \<and>
       y = ClimbItem (projr (mongoToTypeSense_climb dta c))"
  by (auto simp: mongoToTypeSense_climb_def)

lemma area_convert_Inl:
  "(map_sum id AreaItem (mongoToTypeSense_area a) = Inl e) =
   (area_id (AreaType.metadata a) = None \<and> e = TypeError)"
  by (auto simp: mongoToTypeSense_area_def split: option.splits)

lemma climb_convert_Inl:
  "(map_sum id ClimbItem (mongoToTypeSense_climb dta c) = Inl e) =
   (climb_id (ClimbType.metadata c) = None \<and> e = TypeError)"
  by (auto simp: mongoToTypeSense_climb_def split: option.splits)

lemma in_pages_of:
  assumes "1 \<le> cs" "pg \<in> set (pages_of cs src)" "x \<in> set pg"
  shows "x \<in> set src"
proof -
  have "x \<in> set (concat (pages_of cs src))" using assms(2,3) by auto
  then show ?thesis by (simp add: concat_pages_of [OF assms(1)])
qed

lemma map_convert_Inl:
  "map_convert convert xs = Inl e \<Longrightarrow> \<exists>x\<in>set xs. convert x = Inl e"
  by (induction xs) (auto split: sum.splits)

lemma map_convert_bad:
  assumes "\<exists>x\<in>set xs. \<exists>e. convert x = Inl e" "\<And>x e. convert x = Inl e \<Longrightarrow> e = e0"
  shows "map_convert convert xs = Inl e0"
proof (cases "map_convert convert xs")
  case (Inl e)
  then obtain x where "convert x = Inl e" using map_convert_Inl by fastforce
  then have "e = e0" by (rule assms(2))
  then show ?thesis using Inl by simp
next
  case (Inr ys)
  from assms(1) obtain x e where x: "x \<in> set xs" "convert x = Inl e" by blast
  have "\<And>zs. map_convert convert xs = Inr zs \<Longrightarrow> \<forall>x\<in>set xs. \<exists>y. convert x = Inr y"
    by (induction xs) (auto split: sum.splits)
  then show ?thesis using Inr x by fastforce
qed

lemma checkCollection_imports:
  "filter is_import (trace (world_of (checkCollection dflt client schema w))) = filter is_import (trace w)"
  by (simp add: checkCollection_eq Let_def is_import_def split: option.split)

lemma area_pass_imports:
  assumes ck: "checkCollection (exit_default I) client (areaSchema I) w = Returned w1"
    and good: "\<forall>a\<in>set (areas d). area_id (AreaType.metadata a) \<noteq> None"
  shows "\<exists>w2. updateAreaTypesense I client d w = Some (Returned w2) \<and>
           filter is_import (trace w2) =
             filter is_import (trace w) @
               map (\<lambda>pg. DocumentsImport (name (areaSchema I))
                            (map (\<lambda>a. AreaItem (projr (mongoToTypeSense_area a))) pg))
                 (pages_of chunkSize (areas d))"
proof -
  let ?conv = "\<lambda>doc. map_sum id AreaItem (mongoToTypeSense_area doc)"
  let ?pgs = "pages_of chunkSize (areas d)"
  have rd: "\<And>i. \<not> is_import (AreasFind (i * chunkSize) chunkSize)" by (simp add: is_import_def)
  have ne: "\<forall>pg\<in>set ?pgs. pg \<noteq> []" using pages_of_bounds(1) [OF chunkSize_pos] by blast
  have cat: "concat ?pgs = areas d" by (rule concat_pages_of [OF chunkSize_pos])
  have ok: "\<forall>x\<in>set (concat ?pgs). \<exists>y. ?conv x = Inr y"
    using good area_convert_good unfolding cat by blast
  obtain w2 where w2: "run_pages client (areaSchema I) ?conv (\<lambda>i. AreasFind (i * chunkSize) chunkSize) 0 ?pgs w1 = Returned w2"
    and im: "filter is_import (trace w2) = filter is_import (trace w1) @
        map (\<lambda>pg. DocumentsImport (name (areaSchema I)) (map (projr \<circ> ?conv) pg)) ?pgs"
    using run_pages_good [of "\<lambda>i. AreasFind (i * chunkSize) chunkSize" ?pgs ?conv client "areaSchema I" 0 w1, OF rd ne ok]
    by blast
  have w1: "filter is_import (trace w1) = filter is_import (trace w)"
    using checkCollection_imports [of "exit_default I" client "areaSchema I" w] ck by simp
  have eq: "map (\<lambda>pg. DocumentsImport (name (areaSchema I)) (map (projr \<circ> ?conv) pg)) ?pgs =
            map (\<lambda>pg. DocumentsImport (name (areaSchema I))
                         (map (\<lambda>a. AreaItem (projr (mongoToTypeSense_area a))) pg)) ?pgs"
  proof (rule map_cong [OF refl])
    fix pg assume pg: "pg \<in> set ?pgs"
    have "map (projr \<circ> ?conv) pg = map (\<lambda>a. AreaItem (projr (mongoToTypeSense_area a))) pg"
    proof (rule map_cong [OF refl])
      fix a assume "a \<in> set pg"
      then have "a \<in> set (areas d)" using in_pages_of [OF chunkSize_pos pg] by simp
      then have "area_id (AreaType.metadata a) \<noteq> None" using good by simp
      then show "(projr \<circ> ?conv) a = AreaItem (projr (mongoToTypeSense_area a))"
        using area_convert_good [of a] by auto
    qed
    then show "DocumentsImport (name (areaSchema I)) (map (projr \<circ> ?conv) pg) =
               DocumentsImport (name (areaSchema I)) (map (\<lambda>a. AreaItem (projr (mongoToTypeSense_area a))) pg)"
      by simp
  qed
  show ?thesis
    using w2 im w1 eq by (simp add: updateAreaTypesense_run ck)
qed

lemma climb_pass_imports:
  assumes ck: "checkCollection (exit_default I) client (areaSchema I) w = Returned w1"
    and good: "\<forall>c\<in>set (aggregate_climbs d). climb_id (ClimbType.metadata c) \<noteq> None"
  shows "\<exists>w2. updateClimbTypesense I client d w = Some (Returned w2) \<and>
           filter is_import (trace w2) =
             filter is_import (trace w) @
               map (\<lambda>pg. DocumentsImport (name (climbSchema I))
                            (map (\<lambda>c. ClimbItem (projr (mongoToTypeSense_climb (disciplinesToArray I) c))) pg))
                 (pages_of chunkSize (aggregate_climbs d))"
proof -
  let ?conv = "\<lambda>doc. map_sum id ClimbItem (mongoToTypeSense_climb (disciplinesToArray I) doc)"
  let ?pgs = "pages_of chunkSize (aggregate_climbs d)"
  have rd: "\<And>i. \<not> is_import (ClimbsAggregate (i * chunkSize) chunkSize)" by (simp add: is_import_def)
  have ne: "\<forall>pg\<in>set ?pgs. pg \<noteq> []" using pages_of_bounds(1) [OF chunkSize_pos] by blast
  have cat: "concat ?pgs = aggregate_climbs d" by (rule concat_pages_of [OF chunkSize_pos])
  have ok: "\<forall>x\<in>set (concat ?pgs). \<exists>y. ?conv x = Inr y"
    using good climb_convert_good unfolding cat by blast
  obtain w2 where w2: "run_pages client (climbSchema I) ?conv (\<lambda>i. ClimbsAggregate (i * chunkSize) chunkSize) 0 ?pgs w1 = Returned w2"
    and im: "filter is_import (trace w2) = filter is_import (trace w1) @
        map (\<lambda>pg. DocumentsImport (name (climbSchema I)) (map (projr \<circ> ?conv) pg)) ?pgs"
    using run_pages_good [of "\<lambda>i. ClimbsAggregate (i * chunkSize) chunkSize" ?pgs ?conv client "climbSchema I" 0 w1, OF rd ne ok]
    by blast
  have w1: "filter is_import (trace w1) = filter is_import (trace w)"
    using checkCollection_imports [of "exit_default I" client "areaSchema I" w] ck by simp
  have eq: "map (\<lambda>pg. DocumentsImport (name (climbSchema I)) (map (projr \<circ> ?conv) pg)) ?pgs =
            map (\<lambda>pg. DocumentsImport (name (climbSchema I))
                         (map (\<lambda>c. ClimbItem (projr (mongoToTypeSense_climb (disciplinesToArray I) c))) pg)) ?pgs"
  proof (rule map_cong [OF refl])
    fix pg assume pg: "pg \<in> set ?pgs"
    have "map (projr \<circ> ?conv) pg =
          map (\<lambda>c. ClimbItem (projr (mongoToTypeSense_climb (disciplinesToArray I) c))) pg"
    proof (rule map_cong [OF refl])
      fix c assume "c \<in> set pg"
      then have "c \<in> set (aggregate_climbs d)" using in_pages_of [OF chunkSize_pos pg] by simp
      then have "climb_id (ClimbType.metadata c) \<noteq> None" using good by simp
      then show "(projr \<circ> ?conv) c = ClimbItem (projr (mongoToTypeSense_climb (disciplinesToArray I) c))"
        using climb_convert_good [of c "disciplinesToArray I"] by auto
    qed
    then show "DocumentsImport (name (climbSchema I)) (map (projr \<circ> ?conv) pg) =
               DocumentsImport (name (climbSchema I))
                 (map (\<lambda>c. ClimbItem (projr (mongoToTypeSense_climb (disciplinesToArray I) c))) pg)"
      by simp
  qed
  show ?thesis
    using w2 im w1 eq by (simp add: updateClimbTypesense_run ck)
qed

lemma pages_of_two_pages:
  "pages_of chunkSize (replicate 5000 x @ [y]) = [replicate 5000 x, [y]]"
  by (simp add: pages_of_def page_count_def chunkSize_def upt_conv_Cons)

lemma paged_next_yield_bounds:
  assumes "paged_next cs ev src p w = (Some (page, g), w')"
  shows "1 \<le> length page \<and> length page \<le> cs"
proof -
  have "page = take cs (drop (p * cs) src) \<and> length (take cs (drop (p * cs) src)) \<noteq> 0"
    using assms by (simp add: paged_next_def Let_def split: if_splits)
  then show ?thesis by (cases page) auto
qed

lemma chunk_ok_iff:
  "(\<forall>e\<in>set tr. chunk_ok cs e) =
   (\<forall>nm ds. DocumentsImport nm ds \<in> set tr \<longrightarrow> 1 \<le> length ds \<and> length ds \<le> cs)"
proof
  assume a: "\<forall>e\<in>set tr. chunk_ok cs e"
  show "\<forall>nm ds. DocumentsImport nm ds \<in> set tr \<longrightarrow> 1 \<le> length ds \<and> length ds \<le> cs"
  proof (intro allI impI)
    fix nm ds assume "DocumentsImport nm ds \<in> set tr"
    then have "chunk_ok cs (DocumentsImport nm ds)" using a by blast
    then show "1 \<le> length ds \<and> length ds \<le> cs" by (simp add: chunk_ok_def)
  qed
next
  assume a: "\<forall>nm ds. DocumentsImport nm ds \<in> set tr \<longrightarrow> 1 \<le> length ds \<and> length ds \<le> cs"
  show "\<forall>e\<in>set tr. chunk_ok cs e"
  proof
    fix e assume e: "e \<in> set tr"
    show "chunk_ok cs e"
    proof (cases e)
      case (DocumentsImport nm ds)
      then show ?thesis using a e by (simp add: chunk_ok_def)
    qed (simp_all add: chunk_ok_def)
  qed
qed

lemma emit_chunk_ok:
  "\<not> is_import e \<Longrightarrow> \<forall>x\<in>set (trace w). chunk_ok cs x \<Longrightarrow> \<forall>x\<in>set (trace (emit e w)). chunk_ok cs x"
  by (cases e) (auto simp: emit_def chunk_ok_def is_import_def)

lemma checkCollection_chunk_ok:
  "\<forall>x\<in>set (trace w). chunk_ok cs x \<Longrightarrow>
   \<forall>x\<in>set (trace (world_of (checkCollection dflt client schema w))). chunk_ok cs x"
  by (auto simp: checkCollection_eq Let_def chunk_ok_def split: option.splits)

lemma area_pass_chunk_ok:
  assumes "\<forall>x\<in>set (trace w). chunk_ok chunkSize x"
  shows "\<exists>out. updateAreaTypesense I client d w = Some out \<and>
               (\<forall>x\<in>set (trace (world_of out)). chunk_ok chunkSize x)"
proof (cases "checkCollection (exit_default I) client (areaSchema I) w")
  case (Returned w1)
  have w1: "\<forall>x\<in>set (trace w1). chunk_ok chunkSize x"
    using checkCollection_chunk_ok [OF assms, of "exit_default I" client "areaSchema I"] Returned by simp
  have len: "\<forall>pg\<in>set (pages_of chunkSize (areas d)). length pg \<le> chunkSize"
    using pages_of_bounds(2) [OF chunkSize_pos] by blast
  have rd: "\<And>i. \<not> is_import (AreasFind (i * chunkSize) chunkSize)" by (simp add: is_import_def)
  show ?thesis
    using run_pages_chunk_ok [of "\<lambda>i. AreasFind (i * chunkSize) chunkSize", OF rd len w1]
    by (simp add: updateAreaTypesense_run Returned)
next
  case (Exited c w1)
  then show ?thesis
    using checkCollection_chunk_ok [OF assms, of "exit_default I" client "areaSchema I"]
    by (simp add: updateAreaTypesense_run)
next
  case (Threw e w1)
  then show ?thesis by (simp add: checkCollection_not_Threw)
qed

lemma climb_pass_chunk_ok:
  assumes "\<forall>x\<in>set (trace w). chunk_ok chunkSize x"
  shows "\<exists>out. updateClimbTypesense I client d w = Some out \<and>
               (\<forall>x\<in>set (trace (world_of out)). chunk_ok chunkSize x)"
proof (cases "checkCollection (exit_default I) client (areaSchema I) w")
  case (Returned w1)
  have w1: "\<forall>x\<in>set (trace w1). chunk_ok chunkSize x"
    using checkCollection_chunk_ok [OF assms, of "exit_default I" client "areaSchema I"] Returned by simp
  have len: "\<forall>pg\<in>set (pages_of chunkSize (aggregate_climbs d)). length pg \<le> chunkSize"
    using pages_of_bounds(2) [OF chunkSize_pos] by blast
  have rd: "\<And>i. \<not> is_import (ClimbsAggregate (i * chunkSize) chunkSize)" by (simp add: is_import_def)
  show ?thesis
    using run_pages_chunk_ok [of "\<lambda>i. ClimbsAggregate (i * chunkSize) chunkSize", OF rd len w1]
    by (simp add: updateClimbTypesense_run Returned)
next
  case (Exited c w1)
  then show ?thesis
    using checkCollection_chunk_ok [OF assms, of "exit_default I" client "areaSchema I"]
    by (simp add: updateClimbTypesense_run)
next
  case (Threw e w1)
  then show ?thesis by (simp add: checkCollection_not_Threw)
qed

lemma and_then_inv:
  assumes "r = Some out" "P (world_of out)"
    and "\<And>w. P w \<Longrightarrow> \<exists>out'. f w = Some out' \<and> P (world_of out')"
  shows "\<exists>out'. and_then r f = Some out' \<and> P (world_of out')"
  using assms by (cases out) (auto simp: and_then_def)

lemma onDBConnected_chunk_ok:
  fixes w :: "('s, 'n Object) world" and I :: "('s, 'n, 't) module_imports"
  assumes inv: "\<forall>x\<in>set (trace w). chunk_ok chunkSize x"
  shows "\<exists>out. onDBConnected I env argv d w = Some out \<and>
               (\<forall>x\<in>set (trace (world_of out)). chunk_ok chunkSize x)"
proof -
  let ?P = "\<lambda>w :: ('s, 'n Object) world. \<forall>x\<in>set (trace w). chunk_ok chunkSize x"
  have log: "\<And>l m w. ?P w \<Longrightarrow> ?P (emit (Log l m) w)"
    by (rule emit_chunk_ok) (simp add: is_import_def)
  have exit: "\<And>c w. ?P w \<Longrightarrow> \<exists>out'. Some (gracefulExit (exit_default I) c w) = Some out' \<and> ?P (world_of out')"
    by (simp add: gracefulExit_def)
  have climbs: "\<And>cl w. ?P w \<Longrightarrow>
      \<exists>out. (if ''--climbs'' \<in> set argv
              then and_then (updateClimbTypesense I cl d w)
                     (\<lambda>w2. Some (Returned (emit (Log INFO ClimbsPushed) w2)))
              else Some (Returned w)) = Some out \<and> ?P (world_of out)"
  proof -
    fix cl and w :: "('s, 'n Object) world" assume w: "?P w"
    obtain out where out: "updateClimbTypesense I cl d w = Some out" "?P (world_of out)"
      using climb_pass_chunk_ok [OF w] by blast
    have "\<exists>out'. and_then (updateClimbTypesense I cl d w)
                     (\<lambda>w2. Some (Returned (emit (Log INFO ClimbsPushed) w2))) = Some out' \<and> ?P (world_of out')"
      by (rule and_then_inv [where P = ?P, OF out]) (simp add: log)
    then show "\<exists>out. (if ''--climbs'' \<in> set argv
              then and_then (updateClimbTypesense I cl d w)
                     (\<lambda>w2. Some (Returned (emit (Log INFO ClimbsPushed) w2)))
              else Some (Returned w)) = Some out \<and> ?P (world_of out)"
      using w by simp
  qed
  have areas: "\<And>cl w. ?P w \<Longrightarrow>
      \<exists>out. (if ''--areas'' \<in> set argv
              then and_then (updateAreaTypesense I cl d w)
                     (\<lambda>w4. Some (Returned (emit (Log INFO AreasPushed) w4)))
              else Some (Returned w)) = Some out \<and> ?P (world_of out)"
  proof -
    fix cl and w :: "('s, 'n Object) world" assume w: "?P w"
    obtain out where out: "updateAreaTypesense I cl d w = Some out" "?P (world_of out)"
      using area_pass_chunk_ok [OF w] by blast
    have "\<exists>out'. and_then (updateAreaTypesense I cl d w)
                     (\<lambda>w4. Some (Returned (emit (Log INFO AreasPushed) w4))) = Some out' \<and> ?P (world_of out')"
      by (rule and_then_inv [where P = ?P, OF out]) (simp add: log)
    then show "\<exists>out. (if ''--areas'' \<in> set argv
              then and_then (updateAreaTypesense I cl d w)
                     (\<lambda>w4. Some (Returned (emit (Log INFO AreasPushed) w4)))
              else Some (Returned w)) = Some out \<and> ?P (world_of out)"
      using w by simp
  qed
  show ?thesis
  proof (cases "nullish (env ''TYPESENSE_NODE'') '''' = '''' \<or> nullish (env ''TYPESENSE_API_KEY'') '''' = ''''")
    case True
    then show ?thesis using inv by (auto simp: onDBConnected_def Let_def gracefulExit_def)
  next
    case False
    let ?cl = "Typesense_Client I (nullish (env ''TYPESENSE_NODE'') '''') (nullish (env ''TYPESENSE_API_KEY'') '''')"
    let ?w1 = "emit (Log INFO StartPushing) w"
    have w1: "?P ?w1" using inv by (rule log)
    obtain o1 where o1: "(if ''--climbs'' \<in> set argv
              then and_then (updateClimbTypesense I ?cl d ?w1)
                     (\<lambda>w2. Some (Returned (emit (Log INFO ClimbsPushed) w2)))
              else Some (Returned ?w1)) = Some o1" "?P (world_of o1)"
      using climbs [OF w1] by blast
    have "\<exists>out'. and_then (if ''--climbs'' \<in> set argv
              then and_then (updateClimbTypesense I ?cl d ?w1)
                     (\<lambda>w2. Some (Returned (emit (Log INFO ClimbsPushed) w2)))
              else Some (Returned ?w1))
            (\<lambda>w3. and_then
                   (if ''--areas'' \<in> set argv
                    then and_then (updateAreaTypesense I ?cl d w3)
                           (\<lambda>w4. Some (Returned (emit (Log INFO AreasPushed) w4)))
                    else Some (Returned w3))
                   (\<lambda>w5. Some (gracefulExit (exit_default I) None w5))) = Some out' \<and> ?P (world_of out')"
    proof (rule and_then_inv [where P = ?P, OF o1])
      fix w3 :: "('s, 'n Object) world" assume w3: "?P w3"
      obtain o2 where o2: "(if ''--areas'' \<in> set argv
              then and_then (updateAreaTypesense I ?cl d w3)
                     (\<lambda>w4. Some (Returned (emit (Log INFO AreasPushed) w4)))
              else Some (Returned w3)) = Some o2" "?P (world_of o2)"
        using areas [OF w3] by blast
      show "\<exists>out'. and_then
                   (if ''--areas'' \<in> set argv
                    then and_then (updateAreaTypesense I ?cl d w3)
                           (\<lambda>w4. Some (Returned (emit (Log INFO AreasPushed) w4)))
                    else Some (Returned w3))
                   (\<lambda>w5. Some (gracefulExit (exit_default I) None w5)) = Some out' \<and> ?P (world_of out')"
        by (rule and_then_inv [where P = ?P, OF o2]) (rule exit)
    qed
    then show ?thesis using False by (simp add: onDBConnected_def Let_def)
  qed
qed

lemma run_pages_Returned_count:
  assumes rd: "\<And>i. \<not> is_import (rd i)"
  shows "\<forall>pg\<in>set pgs. pg \<noteq> [] \<Longrightarrow> run_pages client schema convert rd p pgs w = Returned w' \<Longrightarrow>
         length (filter is_import (trace w')) = length (filter is_import (trace w)) + length pgs"
proof (induction pgs arbitrary: p w)
  case Nil
  then show ?case using rd by (auto simp: emit_def)
next
  case (Cons pg pgs)
  show ?case
  proof (cases "map_convert convert pg")
    case (Inl e)
    then show ?thesis using Cons.prems(2) by simp
  next
    case (Inr objs)
    have ne: "objs \<noteq> []" using map_convert_length [OF Inr] Cons.prems(1) by auto
    have imp: "filter is_import (trace (uploadChunk client schema objs (emit (rd p) w))) =
               filter is_import (trace w) @ [DocumentsImport (name schema) objs]"
      using rd by (simp add: uploadChunk_imports [OF ne] emit_def)
    have "run_pages client schema convert rd (p + 1) pgs (uploadChunk client schema objs (emit (rd p) w)) = Returned w'"
      using Cons.prems(2) Inr by simp
    then have "length (filter is_import (trace w')) =
        length (filter is_import (trace (uploadChunk client schema objs (emit (rd p) w)))) + length pgs"
      using Cons.IH Cons.prems(1) by simp
    then show ?thesis using imp by simp
  qed
qed

lemma area_pass_count:
  assumes "updateAreaTypesense I cl d v = Some (Returned v2)"
  shows "length (filter is_import (trace v2)) =
         length (filter is_import (trace v)) + page_count chunkSize (length (areas d))"
proof (cases "checkCollection (exit_default I) cl (areaSchema I) v")
  case (Returned v1)
  have run: "run_pages cl (areaSchema I) (\<lambda>doc. map_sum id AreaItem (mongoToTypeSense_area doc))
               (\<lambda>i. AreasFind (i * chunkSize) chunkSize) 0 (pages_of chunkSize (areas d)) v1 = Returned v2"
    using assms by (simp add: updateAreaTypesense_run Returned)
  have rd: "\<And>i. \<not> is_import (AreasFind (i * chunkSize) chunkSize)" by (simp add: is_import_def)
  have ne: "\<forall>pg\<in>set (pages_of chunkSize (areas d)). pg \<noteq> []"
    using pages_of_bounds(1) [OF chunkSize_pos] by blast
  have v1: "filter is_import (trace v1) = filter is_import (trace v)"
    using checkCollection_imports [of "exit_default I" cl "areaSchema I" v] Returned by simp
  show ?thesis
    using run_pages_Returned_count [of "\<lambda>i. AreasFind (i * chunkSize) chunkSize", OF rd ne run]
    by (simp add: v1 length_pages_of)
next
  case (Exited c v1)
  then show ?thesis using assms by (simp add: updateAreaTypesense_run)
next
  case (Threw e v1)
  then show ?thesis by (simp add: checkCollection_not_Threw)
qed

lemma climb_pass_count:
  assumes "updateClimbTypesense I cl d v = Some (Returned v2)"
  shows "length (filter is_import (trace v2)) =
         length (filter is_import (trace v)) + page_count chunkSize (length (aggregate_climbs d))"
proof (cases "checkCollection (exit_default I) cl (areaSchema I) v")
  case (Returned v1)
  have run: "run_pages cl (climbSchema I)
               (\<lambda>doc. map_sum id ClimbItem (mongoToTypeSense_climb (disciplinesToArray I) doc))
               (\<lambda>i. ClimbsAggregate (i * chunkSize) chunkSize) 0
               (pages_of chunkSize (aggregate_climbs d)) v1 = Returned v2"
    using assms by (simp add: updateClimbTypesense_run Returned)
  have rd: "\<And>i. \<not> is_import (ClimbsAggregate (i * chunkSize) chunkSize)" by (simp add: is_import_def)
  have ne: "\<forall>pg\<in>set (pages_of chunkSize (aggregate_climbs d)). pg \<noteq> []"
    using pages_of_bounds(1) [OF chunkSize_pos] by blast
  have v1: "filter is_import (trace v1) = filter is_import (trace v)"
    using checkCollection_imports [of "exit_default I" cl "areaSchema I" v] Returned by simp
  show ?thesis
    using run_pages_Returned_count [of "\<lambda>i. ClimbsAggregate (i * chunkSize) chunkSize", OF rd ne run]
    by (simp add: v1 length_pages_of)
next
  case (Exited c v1)
  then show ?thesis using assms by (simp add: updateClimbTypesense_run)
next
  case (Threw e v1)
  then show ?thesis by (simp add: checkCollection_not_Threw)
qed

lemma climb_pass_Threw:
  assumes ck: "checkCollection (exit_default I) cl (areaSchema I) v = Returned v1"
    and bad: "\<exists>c\<in>set (aggregate_climbs d). climb_id (ClimbType.metadata c) = None"
  shows "\<exists>v2 j. updateClimbTypesense I cl d v = Some (Threw TypeError v2) \<and>
           j < page_count chunkSize (length (aggregate_climbs d)) \<and>
           (\<exists>c\<in>set (pages_of chunkSize (aggregate_climbs d) ! j). climb_id (ClimbType.metadata c) = None) \<and>
           last (trace v2) = ClimbsAggregate (j * chunkSize) chunkSize \<and>
           length (filter is_import (trace v2)) = length (filter is_import (trace v)) + j"
proof -
  let ?conv = "\<lambda>doc. map_sum id ClimbItem (mongoToTypeSense_climb (disciplinesToArray I) doc)"
  let ?pgs = "pages_of chunkSize (aggregate_climbs d)"
  let ?rd = "\<lambda>i. ClimbsAggregate (i * chunkSize) chunkSize"
  have rd: "\<And>i. \<not> is_import (?rd i)" by (simp add: is_import_def)
  have ne: "\<forall>pg\<in>set ?pgs. pg \<noteq> []" using pages_of_bounds(1) [OF chunkSize_pos] by blast
  have cat: "concat ?pgs = aggregate_climbs d" by (rule concat_pages_of [OF chunkSize_pos])
  have "\<exists>x\<in>set (aggregate_climbs d). \<exists>e. ?conv x = Inl e"
    using bad by (simp add: climb_convert_Inl)
  then have all: "map_convert ?conv (concat ?pgs) = Inl TypeError"
    unfolding cat by (rule map_convert_bad) (simp add: climb_convert_Inl)
  obtain v2 j where run: "run_pages cl (climbSchema I) ?conv ?rd 0 ?pgs v1 = Threw TypeError v2"
    and j: "j < length ?pgs"
    and pj: "map_convert ?conv (?pgs ! j) = Inl TypeError"
    and la: "last (trace v2) = ?rd (0 + j)"
    and im: "filter is_import (trace v2) = filter is_import (trace v1) @
        map (\<lambda>pg. DocumentsImport (name (climbSchema I)) (map (projr \<circ> ?conv) pg)) (take j ?pgs)"
    using run_pages_Threw [of ?rd ?pgs ?conv TypeError cl "climbSchema I" 0 v1, OF rd ne all] by blast
  have v1: "filter is_import (trace v1) = filter is_import (trace v)"
    using checkCollection_imports [of "exit_default I" cl "areaSchema I" v] ck by simp
  have cnt: "length (filter is_import (trace v2)) = length (filter is_import (trace v)) + j"
    using im j by (simp add: v1)
  obtain c where "c \<in> set (?pgs ! j)" "?conv c = Inl TypeError"
    using map_convert_Inl [OF pj] by blast
  then have bj: "\<exists>c\<in>set (?pgs ! j). climb_id (ClimbType.metadata c) = None"
    by (auto simp: climb_convert_Inl)
  have "updateClimbTypesense I cl d v = Some (Threw TypeError v2)"
    using run by (simp add: updateClimbTypesense_run ck)
  then show ?thesis using j bj la cnt by (auto simp: length_pages_of)
qed

lemma area_pass_Threw:
  assumes ck: "checkCollection (exit_default I) cl (areaSchema I) v = Returned v1"
    and bad: "\<exists>a\<in>set (areas d). area_id (AreaType.metadata a) = None"
  shows "\<exists>v2 j. updateAreaTypesense I cl d v = Some (Threw TypeError v2) \<and>
           j < page_count chunkSize (length (areas d)) \<and>
           (\<exists>a\<in>set (pages_of chunkSize (areas d) ! j). area_id (AreaType.metadata a) = None) \<and>
           last (trace v2) = AreasFind (j * chunkSize) chunkSize \<and>
           length (filter is_import (trace v2)) = length (filter is_import (trace v)) + j"
proof -
  let ?conv = "\<lambda>doc. map_sum id AreaItem (mongoToTypeSense_area doc)"
  let ?pgs = "pages_of chunkSize (areas d)"
  let ?rd = "\<lambda>i. AreasFind (i * chunkSize) chunkSize"
  have rd: "\<And>i. \<not> is_import (?rd i)" by (simp add: is_import_def)
  have ne: "\<forall>pg\<in>set ?pgs. pg \<noteq> []" using pages_of_bounds(1) [OF chunkSize_pos] by blast
  have cat: "concat ?pgs = areas d" by (rule concat_pages_of [OF chunkSize_pos])
  have "\<exists>x\<in>set (areas d). \<exists>e. ?conv x = Inl e"
    using bad by (simp add: area_convert_Inl)
  then have all: "map_convert ?conv (concat ?pgs) = Inl TypeError"
    unfolding cat by (rule map_convert_bad) (simp add: area_convert_Inl)
  obtain v2 j where run: "run_pages cl (areaSchema I) ?conv ?rd 0 ?pgs v1 = Threw TypeError v2"
    and j: "j < length ?pgs"
    and pj: "map_convert ?conv (?pgs ! j) = Inl TypeError"
    and la: "last (trace v2) = ?rd (0 + j)"
    and im: "filter is_import (trace v2) = filter is_import (trace v1) @
        map (\<lambda>pg. DocumentsImport (name (areaSchema I)) (map (projr \<circ> ?conv) pg)) (take j ?pgs)"
    using run_pages_Threw [of ?rd ?pgs ?conv TypeError cl "areaSchema I" 0 v1, OF rd ne all] by blast
  have v1: "filter is_import (trace v1) = filter is_import (trace v)"
    using checkCollection_imports [of "exit_default I" cl "areaSchema I" v] ck by simp
  have cnt: "length (filter is_import (trace v2)) = length (filter is_import (trace v)) + j"
    using im j by (simp add: v1)
  obtain a where "a \<in> set (?pgs ! j)" "?conv a = Inl TypeError"
    using map_convert_Inl [OF pj] by blast
  then have bj: "\<exists>a\<in>set (?pgs ! j). area_id (AreaType.metadata a) = None"
    by (auto simp: area_convert_Inl)
  have "updateAreaTypesense I cl d v = Some (Threw TypeError v2)"
    using run by (simp add: updateAreaTypesense_run ck)
  then show ?thesis using j bj la cnt by (auto simp: length_pages_of)
qed

lemma aggregate_climbs_ex_db_bad:
  "aggregate_climbs ex_db_bad =
     [mergeObjects ex_climb ([''a1'', ''a2''], [''Yosemite'', ''El Capitan'']),
      mergeObjects ex_climb_bad ([''a1'', ''a2''], [''Yosemite'', ''El Capitan''])]"
  by (simp add: aggregate_climbs_def ex_db_bad_def lookup_areas_def ex_area_def ex_area2_def
      ex_area_bad_def ex_climb_def ex_climb_bad_def)

lemmas run_defs =
  onDBConnected_def nullish_def updateClimbTypesense_def updateAreaTypesense_def
  processMongoCollection_def checkCollection_def emit_def and_then_def
  getAllClimbs_def getAllAreas_def getAllClimbs_next_def getAllAreas_next_def
  processMongoCollection_loop.simps chunkSize_def aggregate_climbs_def lookup_areas_def
  mergeObjects_def uploadChunk_def gracefulExit_def
  mongoToTypeSense_climb_def mongoToTypeSense_area_def geoToLatLng_def js_index_def
  ClimbType.extend_def ClimbExtType.fields_def

lemmas ex_defs =
  ex_imports_def ex_env_def ex_db_def ex_world_def ex_world_climbs_def ex_climb_def ex_area_def
  ex_area2_def store_client_def refusing_client_def

lemma checkCollection_provisions:
  "filter is_provision (trace (world_of (checkCollection dflt client schema w))) =
   filter is_provision (trace w) @ [CollectionDelete (name schema), CollectionCreate schema]"
  by (simp add: checkCollection_eq Let_def is_provision_def split: option.split)

lemma climb_pass_provisions:
  "\<exists>out. updateClimbTypesense I cl d v = Some out \<and>
         filter is_provision (trace (world_of out)) =
           filter is_provision (trace v) @
             [CollectionDelete (name (areaSchema I)), CollectionCreate (areaSchema I)]"
proof (cases "checkCollection (exit_default I) cl (areaSchema I) v")
  case (Returned v1)
  have rd: "\<And>i. \<not> is_provision (ClimbsAggregate (i * chunkSize) chunkSize)"
    by (simp add: is_provision_def)
  have a: "filter is_provision (trace v1) =
      filter is_provision (trace v) @
        [CollectionDelete (name (areaSchema I)), CollectionCreate (areaSchema I)]"
    using checkCollection_provisions [of "exit_default I" cl "areaSchema I" v] Returned by simp
  have b: "filter is_provision (trace (world_of
      (run_pages cl (climbSchema I)
         (\<lambda>doc. map_sum id ClimbItem (mongoToTypeSense_climb (disciplinesToArray I) doc))
         (\<lambda>i. ClimbsAggregate (i * chunkSize) chunkSize) 0
         (pages_of chunkSize (aggregate_climbs d)) v1))) = filter is_provision (trace v1)"
    by (rule run_pages_provisions [OF rd])
  show ?thesis by (simp add: updateClimbTypesense_run Returned a b)
next
  case (Exited c v1)
  then show ?thesis
    using checkCollection_provisions [of "exit_default I" cl "areaSchema I" v]
    by (simp add: updateClimbTypesense_run)
next
  case (Threw e v1)
  then show ?thesis by (simp add: checkCollection_not_Threw)
qed

subsection \<open>The sample destination\<close>

lemma checkCollection_store:
  "checkCollection dflt store_client schema w =
     Returned \<lparr> dest = (dest w)(name schema \<mapsto> []),
                trace = trace w @
                  [CollectionDelete (name schema),
                   Log ERROR (if dest w (name schema) = None then Caught ObjectNotFound
                              else Dropped (name schema)),
                   CollectionCreate schema, Log ERROR (Created (name schema))] \<rparr>"
  by (auto simp: checkCollection_eq store_client_def Let_def)

lemma uploadChunk_store:
  assumes "dest w (name schema) = Some old"
  shows "dest (uploadChunk store_client schema chunk w) = (dest w)(name schema \<mapsto> old @ chunk)"
proof (cases "chunk = []")
  case True
  then show ?thesis using assms by (auto simp: uploadChunk_Nil)
next
  case False
  then show ?thesis using assms by (simp add: uploadChunk_dest store_client_def)
qed

lemma run_pages_store:
  "\<forall>x\<in>set (concat pgs). \<exists>y. convert x = Inr y \<Longrightarrow> dest w (name schema) = Some old \<Longrightarrow>
   \<exists>w'. run_pages store_client schema convert rd p pgs w = Returned w' \<and>
        dest w' = (dest w)(name schema \<mapsto> old @ map (projr \<circ> convert) (concat pgs))"
proof (induction pgs arbitrary: p w old)
  case Nil
  then show ?case by (auto simp: emit_def)
next
  case (Cons pg pgs)
  let ?objs = "map (projr \<circ> convert) pg"
  let ?w1 = "uploadChunk store_client schema ?objs (emit (rd p) w)"
  have good: "map_convert convert pg = Inr ?objs"
    using Cons.prems(1) by (intro map_convert_good) simp
  have d0: "dest (emit (rd p) w) (name schema) = Some old"
    using Cons.prems(2) by (simp add: emit_def)
  have d1: "dest ?w1 = (dest w)(name schema \<mapsto> old @ ?objs)"
    using uploadChunk_store [OF d0, of ?objs] by (simp add: emit_def)
  then have d1': "dest ?w1 (name schema) = Some (old @ ?objs)" by simp
  have rest: "\<forall>x\<in>set (concat pgs). \<exists>y. convert x = Inr y" using Cons.prems(1) by simp
  obtain w' where w': "run_pages store_client schema convert rd (p + 1) pgs ?w1 = Returned w'"
      "dest w' = (dest ?w1)(name schema \<mapsto> (old @ ?objs) @ map (projr \<circ> convert) (concat pgs))"
    using Cons.IH [OF rest d1'] by blast
  have "dest w' = (dest w)(name schema \<mapsto> old @ map (projr \<circ> convert) (concat (pg # pgs)))"
    by (simp only: w'(2) d1 fun_upd_upd concat.simps map_append append_assoc)
  moreover have "run_pages store_client schema convert rd p (pg # pgs) w = Returned w'"
    using good w'(1) by simp
  ultimately show ?case by blast
qed

lemma area_pass_store:
  assumes good: "\<forall>a\<in>set (areas d). area_id (AreaType.metadata a) \<noteq> None"
  shows "\<exists>v1. updateAreaTypesense I store_client d v = Some (Returned v1) \<and>
              dest v1 = (dest v)(name (areaSchema I) \<mapsto>
                          map (\<lambda>a. AreaItem (projr (mongoToTypeSense_area a))) (areas d))"
proof -
  let ?conv = "\<lambda>doc. map_sum id AreaItem (mongoToTypeSense_area doc)"
  let ?pgs = "pages_of chunkSize (areas d)"
  let ?w1 = "\<lparr> dest = (dest v)(name (areaSchema I) \<mapsto> []),
                trace = trace v @
                  [CollectionDelete (name (areaSchema I)),
                   Log ERROR (if dest v (name (areaSchema I)) = None then Caught ObjectNotFound
                              else Dropped (name (areaSchema I))),
                   CollectionCreate (areaSchema I), Log ERROR (Created (name (areaSchema I)))] \<rparr>"
  have cat: "concat ?pgs = areas d" by (rule concat_pages_of [OF chunkSize_pos])
  have ok: "\<forall>x\<in>set (concat ?pgs). \<exists>y. ?conv x = Inr y"
    using good area_convert_good unfolding cat by blast
  have d1: "dest ?w1 (name (areaSchema I)) = Some []" by simp
  obtain v1 where v1: "run_pages store_client (areaSchema I) ?conv
        (\<lambda>i. AreasFind (i * chunkSize) chunkSize) 0 ?pgs ?w1 = Returned v1"
      "dest v1 = (dest ?w1)(name (areaSchema I) \<mapsto> [] @ map (projr \<circ> ?conv) (concat ?pgs))"
    using run_pages_store [OF ok d1] by blast
  have meq: "map (projr \<circ> ?conv) (areas d) =
             map (\<lambda>a. AreaItem (projr (mongoToTypeSense_area a))) (areas d)"
  proof (rule map_cong [OF refl])
    fix a assume "a \<in> set (areas d)"
    then have "area_id (AreaType.metadata a) \<noteq> None" using good by simp
    then show "(projr \<circ> ?conv) a = AreaItem (projr (mongoToTypeSense_area a))"
      using area_convert_good [of a] by auto
  qed
  have dw1: "dest ?w1 = (dest v)(name (areaSchema I) \<mapsto> [])" by simp
  have dv1: "dest v1 = (dest v)(name (areaSchema I) \<mapsto>
                          map (\<lambda>a. AreaItem (projr (mongoToTypeSense_area a))) (areas d))"
    by (simp only: v1(2) dw1 cat fun_upd_upd append_Nil meq)
  have "updateAreaTypesense I store_client d v = Some (Returned v1)"
    using v1(1) by (simp add: updateAreaTypesense_run checkCollection_store)
  then show ?thesis using dv1 by blast
qed

lemma concat_singletons_length:
  "\<forall>c\<in>set cs. length (f c) = 1 \<Longrightarrow> length (concat (map (\<lambda>c. map (g c) (f c)) cs)) = length cs"
  by (induction cs) simp_all

lemma aggregate_climbs_length:
  assumes "\<forall>c\<in>set (climbs d).
             length (filter (\<lambda>a. area_id (AreaType.metadata a) = Some (areaRef (ClimbType.metadata c)))
                       (areas d)) = 1"
  shows "length (aggregate_climbs d) = length (climbs d)"
proof -
  have "\<forall>c\<in>set (climbs d). length (lookup_areas (areas d) c) = 1"
    using assms by (simp add: lookup_areas_def)
  then show ?thesis
    unfolding aggregate_climbs_def by (rule concat_singletons_length)
qed

lemma collect_paged_pages:
  assumes cs: "1 \<le> cs"
  shows "\<exists>pages w'.
           collect (paged_next cs ev src) 0 [] w = Some (pages, w') \<and>
           length pages = (length src + cs - 1) div cs \<and>
           concat pages = src \<and>
           (\<forall>i. i + 1 < length pages \<longrightarrow> length (pages ! i) = cs) \<and>
           (pages \<noteq> [] \<longrightarrow>
              length (last pages) = (if length src mod cs = 0 then cs else length src mod cs)) \<and>
           (\<forall>i < length pages. pages ! i = take cs (drop (i * cs) src)) \<and>
           (\<forall>i \<le> length pages. (take cs (drop (i * cs) src) = []) = (i = length pages)) \<and>
           trace w' = trace w @ map (\<lambda>i. ev (i * cs) cs) [0..<length pages + 1] \<and>
           dest w' = dest w"
proof -
  let ?k = "page_count cs (length src)"
  let ?pages = "pages_of cs src"
  let ?w' = "w\<lparr> trace := trace w @ map (\<lambda>i. ev (i * cs) cs) [0..<?k + 1] \<rparr>"
  have run: "collect (paged_next cs ev src) 0 [] w = Some (?pages, ?w')"
    using collect_paged [OF cs, of 0 src ev "[]" w] by (simp add: pages_of_def)
  have len: "length ?pages = (length src + cs - 1) div cs"
    by (simp add: length_pages_of page_count_def)
  have lenk: "length ?pages = ?k" by (simp add: length_pages_of)
  have cat: "concat ?pages = src" by (rule concat_pages_of [OF cs])
  have full: "\<forall>i. i + 1 < length ?pages \<longrightarrow> length (?pages ! i) = cs"
  proof (intro allI impI)
    fix i assume i: "i + 1 < length ?pages"
    then have "i + 1 < ?k" by (simp add: lenk)
    then have "length (take cs (drop (i * cs) src)) = cs" by (rule page_full [OF cs])
    moreover have "i < ?k" using i lenk by simp
    ultimately show "length (?pages ! i) = cs" by (simp add: pages_of_nth)
  qed
  have lastp: "?pages \<noteq> [] \<longrightarrow>
      length (last ?pages) = (if length src mod cs = 0 then cs else length src mod cs)"
  proof
    assume ne: "?pages \<noteq> []"
    then have k0: "0 < ?k" using lenk by (cases "?k") auto
    then have "0 * cs < length src" using page_lt_iff [OF cs, of 0 "length src"] by simp
    then have n0: "0 < length src" by simp
    have "last ?pages = ?pages ! (?k - 1)" using ne lenk by (simp add: last_conv_nth)
    also have "\<dots> = take cs (drop ((?k - 1) * cs) src)" using k0 by (simp add: pages_of_nth)
    finally have "length (last ?pages) = min cs (length src - (?k - 1) * cs)" by simp
    also have "\<dots> = min cs (if length src mod cs = 0 then cs else length src mod cs)"
      by (simp only: last_page_length [OF cs n0])
    also have "\<dots> = (if length src mod cs = 0 then cs else length src mod cs)"
    proof -
      have "length src mod cs < cs" using cs by simp
      then show ?thesis by (simp add: min_def)
    qed
    finally show "length (last ?pages) = (if length src mod cs = 0 then cs else length src mod cs)" .
  qed
  have nth: "\<forall>i < length ?pages. ?pages ! i = take cs (drop (i * cs) src)"
    by (simp add: lenk pages_of_nth)
  have empty: "\<forall>i \<le> length ?pages. (take cs (drop (i * cs) src) = []) = (i = length ?pages)"
  proof (intro allI impI)
    fix i assume "i \<le> length ?pages"
    then have i: "i \<le> ?k" by (simp add: lenk)
    show "(take cs (drop (i * cs) src) = []) = (i = length ?pages)"
    proof (cases "i < ?k")
      case True
      then show ?thesis using page_nonempty [OF cs True] lenk by simp
    next
      case False
      then have ik: "i = ?k" using i by simp
      have "\<not> ?k * cs < length src" using page_lt_iff [OF cs, of ?k "length src"] by simp
      then show ?thesis using ik lenk by simp
    qed
  qed
  have tr: "trace ?w' = trace w @ map (\<lambda>i. ev (i * cs) cs) [0..<length ?pages + 1]"
    by (simp add: lenk)
  have de: "dest ?w' = dest w" by simp
  show "\<exists>pages w'.
           collect (paged_next cs ev src) 0 [] w = Some (pages, w') \<and>
           length pages = (length src + cs - 1) div cs \<and>
           concat pages = src \<and>
           (\<forall>i. i + 1 < length pages \<longrightarrow> length (pages ! i) = cs) \<and>
           (pages \<noteq> [] \<longrightarrow>
              length (last pages) = (if length src mod cs = 0 then cs else length src mod cs)) \<and>
           (\<forall>i < length pages. pages ! i = take cs (drop (i * cs) src)) \<and>
           (\<forall>i \<le> length pages. (take cs (drop (i * cs) src) = []) = (i = length pages)) \<and>
           trace w' = trace w @ map (\<lambda>i. ev (i * cs) cs) [0..<length pages + 1] \<and>
           dest w' = dest w"
    using run len cat full lastp nth empty tr de by blast
qed

section \<open>Properties\<close>

text \<open>
  C6. For a point whose coordinate list is the pair [longitude, latitude], the
  conversion returns the pair [latitude, longitude]: the two values swapped and
  unchanged.
\<close>

theorem geoToLatLng_swaps:
  "geoToLatLng \<lparr> coordinates = [lng, lat] \<rparr> = (Some lat, Some lng)"
  by (simp add: geoToLatLng_def js_index_def)

text \<open>
  C3. If the destination host address or the API credential is absent from the
  environment, or empty, the run ends at once with exit code 1 and the world is
  untouched: no provisioning call, no upload call, no read and no log line. The
  process ends there because \<^verbatim>\<open>gracefulExit\<close> is the exit path of the process.
\<close>

theorem missing_credentials_exit:
  assumes "env ''TYPESENSE_NODE'' = None \<or> env ''TYPESENSE_NODE'' = Some '''' \<or>
           env ''TYPESENSE_API_KEY'' = None \<or> env ''TYPESENSE_API_KEY'' = Some ''''"
  shows "onDBConnected I env argv d w = Some (Exited 1 w)"
  using assms by (auto simp: onDBConnected_def nullish_def gracefulExit_def Let_def)

theorem missing_credentials_exit_witness:
  "[''TYPESENSE_NODE'' \<mapsto> ''search.example.org''] ''TYPESENSE_API_KEY'' = None \<and>
   onDBConnected ex_imports [''TYPESENSE_NODE'' \<mapsto> ''search.example.org'']
     [''--climbs'', ''--areas''] ex_db ex_world = Some (Exited 1 ex_world)"
  using missing_credentials_exit [of "[''TYPESENSE_NODE'' \<mapsto> ''search.example.org'']"
      ex_imports "[''--climbs'', ''--areas'']" ex_db ex_world]
  by simp

text \<open>
  C4. For every page size \<open>cs \<ge> 1\<close> and every source of \<open>N\<close> records, running
  the page generator to its end returns; it yields \<open>N / cs\<close> rounded up pages,
  which concatenate to the source; every page but the last holds \<open>cs\<close> records and
  the last holds \<open>N mod cs\<close> records, or \<open>cs\<close> when that is 0; page \<open>i\<close> is the slice
  at offset \<open>i * cs\<close>; the reads are made at the offsets 0, \<open>cs\<close>, \<open>2 * cs\<close>, ..., one
  more than there are pages, and the first empty slice is the one that ends the
  generator. The same is stated of the two generators of the job, each run from its
  own initial state: \<^verbatim>\<open>getAllAreas\<close> pages the areas of the store and \<^verbatim>\<open>getAllClimbs\<close> the
  climbs joined with their areas, both at page size \<open>chunkSize\<close>, which is 5000. When
  every climb references exactly one area, the joined source has as many records as
  there are climbs.
\<close>

theorem pagination_pages:
  assumes cs: "1 \<le> cs"
  shows "(\<exists>pages w'.
           collect_all (0, paged_next cs ev src) w = Some (pages, w') \<and>
           length pages = (length src + cs - 1) div cs \<and>
           concat pages = src \<and>
           (\<forall>i. i + 1 < length pages \<longrightarrow> length (pages ! i) = cs) \<and>
           (pages \<noteq> [] \<longrightarrow>
              length (last pages) = (if length src mod cs = 0 then cs else length src mod cs)) \<and>
           (\<forall>i < length pages. pages ! i = take cs (drop (i * cs) src)) \<and>
           (\<forall>i \<le> length pages. (take cs (drop (i * cs) src) = []) = (i = length pages)) \<and>
           trace w' = trace w @ map (\<lambda>i. ev (i * cs) cs) [0..<length pages + 1] \<and>
           dest w' = dest w) \<and>
         (\<exists>pages w'.
           collect_all (getAllAreas d) w = Some (pages, w') \<and>
           length pages = (length (areas d) + chunkSize - 1) div chunkSize \<and>
           concat pages = areas d \<and>
           (\<forall>i. i + 1 < length pages \<longrightarrow> length (pages ! i) = chunkSize) \<and>
           (pages \<noteq> [] \<longrightarrow>
              length (last pages) =
                (if length (areas d) mod chunkSize = 0 then chunkSize
                 else length (areas d) mod chunkSize)) \<and>
           (\<forall>i < length pages. pages ! i = take chunkSize (drop (i * chunkSize) (areas d))) \<and>
           (\<forall>i \<le> length pages.
              (take chunkSize (drop (i * chunkSize) (areas d)) = []) = (i = length pages)) \<and>
           trace w' = trace w @ map (\<lambda>i. AreasFind (i * chunkSize) chunkSize) [0..<length pages + 1] \<and>
           dest w' = dest w) \<and>
         (\<exists>pages w'.
           collect_all (getAllClimbs d) w = Some (pages, w') \<and>
           length pages = (length (aggregate_climbs d) + chunkSize - 1) div chunkSize \<and>
           concat pages = aggregate_climbs d \<and>
           (\<forall>i. i + 1 < length pages \<longrightarrow> length (pages ! i) = chunkSize) \<and>
           (pages \<noteq> [] \<longrightarrow>
              length (last pages) =
                (if length (aggregate_climbs d) mod chunkSize = 0 then chunkSize
                 else length (aggregate_climbs d) mod chunkSize)) \<and>
           (\<forall>i < length pages.
              pages ! i = take chunkSize (drop (i * chunkSize) (aggregate_climbs d))) \<and>
           (\<forall>i \<le> length pages.
              (take chunkSize (drop (i * chunkSize) (aggregate_climbs d)) = []) = (i = length pages)) \<and>
           trace w' =
             trace w @ map (\<lambda>i. ClimbsAggregate (i * chunkSize) chunkSize) [0..<length pages + 1] \<and>
           dest w' = dest w) \<and>
         chunkSize = 5000 \<and>
         ((\<forall>c\<in>set (climbs d).
             length (filter (\<lambda>a. area_id (AreaType.metadata a) = Some (areaRef (ClimbType.metadata c)))
                       (areas d)) = 1) \<longrightarrow>
            length (aggregate_climbs d) = length (climbs d))"
proof -
  note g = collect_paged_pages [OF cs, of ev src w]
  note a = collect_paged_pages [OF chunkSize_pos, of AreasFind "areas d" w,
      folded getAllAreas_next_paged]
  note c = collect_paged_pages [OF chunkSize_pos, of ClimbsAggregate "aggregate_climbs d" w,
      folded getAllClimbs_next_paged]
  have j: "(\<forall>c\<in>set (climbs d).
             length (filter (\<lambda>a. area_id (AreaType.metadata a) = Some (areaRef (ClimbType.metadata c)))
                       (areas d)) = 1) \<longrightarrow>
            length (aggregate_climbs d) = length (climbs d)"
    using aggregate_climbs_length [of d] by blast
  show ?thesis
    unfolding collect_all_def getAllAreas_def getAllClimbs_def fst_conv snd_conv
    using g a c j chunkSize_def by (intro conjI)
qed

theorem pagination_pages_witness:
  "(1::nat) \<le> 2 \<and>
   (\<exists>w'. collect_all (0, paged_next 2 AreasFind [ex_area, ex_area2, ex_area, ex_area2, ex_area]) ex_world =
           Some ([[ex_area, ex_area2], [ex_area, ex_area2], [ex_area]], w') \<and>
         trace w' = [AreasFind 0 2, AreasFind 2 2, AreasFind 4 2, AreasFind 6 2]) \<and>
   (\<exists>w'. collect_all (getAllAreas ex_db_two_pages) ex_world =
           Some ([replicate 5000 ex_area, [ex_area2]], w') \<and>
         trace w' = [AreasFind 0 5000, AreasFind 5000 5000, AreasFind 10000 5000]) \<and>
   (\<exists>w'. collect_all (getAllClimbs ex_db) ex_world =
           Some ([[mergeObjects ex_climb ([''a1'', ''a2''], [''Yosemite'', ''El Capitan''])]], w') \<and>
         trace w' = [ClimbsAggregate 0 5000, ClimbsAggregate 5000 5000]) \<and>
   length (filter (\<lambda>a. area_id (AreaType.metadata a) = Some (areaRef (ClimbType.metadata ex_climb)))
             (areas ex_db)) = 1 \<and>
   length (aggregate_climbs ex_db) = length (climbs ex_db)"
proof -
  have h: "(1::nat) \<le> 2" by simp
  note T = pagination_pages [OF h, of AreasFind "[ex_area, ex_area2, ex_area, ex_area2, ex_area]"
      ex_world ex_db_two_pages]
  note U = pagination_pages [OF h, of AreasFind "[ex_area, ex_area2, ex_area, ex_area2, ex_area]"
      ex_world ex_db]
  \<comment> \<open>the page loop at page size 2\<close>
  obtain pages w' where
    r: "collect_all (0, paged_next 2 AreasFind [ex_area, ex_area2, ex_area, ex_area2, ex_area]) ex_world =
          Some (pages, w')"
    and l: "length pages = (length [ex_area, ex_area2, ex_area, ex_area2, ex_area] + 2 - 1) div 2"
    and n: "\<forall>i < length pages. pages ! i =
              take 2 (drop (i * 2) [ex_area, ex_area2, ex_area, ex_area2, ex_area])"
    and t: "trace w' = trace ex_world @ map (\<lambda>i. AreasFind (i * 2) 2) [0..<length pages + 1]"
    using T [THEN conjunct1] by blast
  have l3: "length pages = 3" using l by simp
  have "pages ! 0 = [ex_area, ex_area2]" "pages ! Suc 0 = [ex_area, ex_area2]"
    "pages ! Suc (Suc 0) = [ex_area]"
    using n l3 by simp_all
  then have p: "pages = [[ex_area, ex_area2], [ex_area, ex_area2], [ex_area]]"
    using l3 by (intro nth_equalityI) (auto simp: less_Suc_eq numeral_3_eq_3)
  have "trace w' = [AreasFind 0 2, AreasFind 2 2, AreasFind 4 2, AreasFind 6 2]"
    using t l3 by (simp add: ex_world_def upt_conv_Cons)
  then have r1: "\<exists>w'. collect_all (0, paged_next 2 AreasFind [ex_area, ex_area2, ex_area, ex_area2, ex_area])
                       ex_world =
           Some ([[ex_area, ex_area2], [ex_area, ex_area2], [ex_area]], w') \<and>
         trace w' = [AreasFind 0 2, AreasFind 2 2, AreasFind 4 2, AreasFind 6 2]"
    using r p by blast
  \<comment> \<open>the areas generator on 5001 areas\<close>
  have ar: "areas ex_db_two_pages = replicate 5000 ex_area @ [ex_area2]"
    by (simp add: ex_db_two_pages_def)
  obtain apages aw where
    ra: "collect_all (getAllAreas ex_db_two_pages) ex_world =
          Some (apages, aw)"
    and la: "length apages = (length (areas ex_db_two_pages) + chunkSize - 1) div chunkSize"
    and na: "\<forall>i < length apages. apages ! i =
              take chunkSize (drop (i * chunkSize) (areas ex_db_two_pages))"
    and ta: "trace aw = trace ex_world @
               map (\<lambda>i. AreasFind (i * chunkSize) chunkSize) [0..<length apages + 1]"
    using T [THEN conjunct2, THEN conjunct1] by blast
  have la2: "length apages = 2" using la by (simp add: ar chunkSize_def)
  have "apages ! 0 = replicate 5000 ex_area" "apages ! Suc 0 = [ex_area2]"
    using na la2 by (simp_all add: ar chunkSize_def)
  then have pa: "apages = [replicate 5000 ex_area, [ex_area2]]"
    using la2 by (intro nth_equalityI) (auto simp: less_Suc_eq numeral_2_eq_2)
  have "trace aw = [AreasFind 0 5000, AreasFind 5000 5000, AreasFind 10000 5000]"
    using ta la2 by (simp add: ex_world_def chunkSize_def upt_conv_Cons)
  then have r2: "\<exists>w'. collect_all (getAllAreas ex_db_two_pages) ex_world =
           Some ([replicate 5000 ex_area, [ex_area2]], w') \<and>
         trace w' = [AreasFind 0 5000, AreasFind 5000 5000, AreasFind 10000 5000]"
    using ra pa by (intro exI [of _ aw]) simp
  \<comment> \<open>the climbs generator on the sample store\<close>
  have ag: "aggregate_climbs ex_db = [mergeObjects ex_climb ([''a1'', ''a2''], [''Yosemite'', ''El Capitan''])]"
    by (simp add: aggregate_climbs_def ex_db_def lookup_areas_def ex_area_def ex_area2_def ex_climb_def)
  obtain cpages cw where
    rc: "collect_all (getAllClimbs ex_db) ex_world = Some (cpages, cw)"
    and lc: "length cpages = (length (aggregate_climbs ex_db) + chunkSize - 1) div chunkSize"
    and nc: "\<forall>i < length cpages. cpages ! i =
              take chunkSize (drop (i * chunkSize) (aggregate_climbs ex_db))"
    and tc: "trace cw = trace ex_world @
               map (\<lambda>i. ClimbsAggregate (i * chunkSize) chunkSize) [0..<length cpages + 1]"
    using U [THEN conjunct2, THEN conjunct2, THEN conjunct1] by blast
  have lc1: "length cpages = 1" using lc by (simp add: ag chunkSize_def)
  have "cpages ! 0 = [mergeObjects ex_climb ([''a1'', ''a2''], [''Yosemite'', ''El Capitan''])]"
    using nc lc1 by (simp add: ag chunkSize_def)
  then have pc: "cpages = [[mergeObjects ex_climb ([''a1'', ''a2''], [''Yosemite'', ''El Capitan''])]]"
    using lc1 by (intro nth_equalityI) auto
  have "trace cw = [ClimbsAggregate 0 5000, ClimbsAggregate 5000 5000]"
    using tc lc1 by (simp add: ex_world_def chunkSize_def upt_conv_Cons)
  then have r3: "\<exists>w'. collect_all (getAllClimbs ex_db) ex_world =
           Some ([[mergeObjects ex_climb ([''a1'', ''a2''], [''Yosemite'', ''El Capitan''])]], w') \<and>
         trace w' = [ClimbsAggregate 0 5000, ClimbsAggregate 5000 5000]"
    using rc pc by (intro exI [of _ cw]) simp
  \<comment> \<open>the join\<close>
  have h1: "length (filter (\<lambda>a. area_id (AreaType.metadata a) = Some (areaRef (ClimbType.metadata ex_climb)))
             (areas ex_db)) = 1"
    by (simp add: ex_db_def ex_area_def ex_area2_def ex_climb_def)
  then have h1': "\<forall>c\<in>set (climbs ex_db).
       length (filter (\<lambda>a. area_id (AreaType.metadata a) = Some (areaRef (ClimbType.metadata c)))
                 (areas ex_db)) = 1"
    by (simp add: ex_db_def)
  have r4: "length (aggregate_climbs ex_db) = length (climbs ex_db)"
    using U [THEN conjunct2, THEN conjunct2, THEN conjunct2, THEN conjunct2] h1' by blast
  show ?thesis using h r1 r2 r3 h1 r4 by blast
qed

text \<open>
  C5. Both transformers are total on well-formed input and their result is a function
  of the record alone: a climb that has its identifier and whose point is a pair
  [longitude, latitude] is mapped to the document written out below, and so is an
  area. The optional fields get fixed defaults: a missing climb description gives the
  empty string, a missing first-ascent text gives the empty string, a missing area
  name gives the empty string; every field of the destination document is filled.
\<close>

theorem transformers_total_with_defaults:
  "(climb_id (ClimbType.metadata c) = Some cid \<and>
    coordinates (ClimbMetadata.lnglat (ClimbType.metadata c)) = [lng, lat] \<longrightarrow>
      mongoToTypeSense_climb dta c = Inr
        \<lparr> climbUUID = toUUID_toString cid,
          climbName = ClimbType.name c,
          climbDesc = (case description (content c) of None \<Rightarrow> '''' | Some s \<Rightarrow> s),
          fa = (case ClimbType.fa c of None \<Rightarrow> '''' | Some s \<Rightarrow> s),
          areaNames = ClimbExtType.pathTokens c,
          disciplines = dta (type c),
          grade = yds c,
          safety = ClimbType.safety c,
          cragLatLng = (Some lat, Some lng) \<rparr>) \<and>
   (area_id (AreaType.metadata a) = Some aid \<and>
    coordinates (AreaMetadata.lnglat (AreaType.metadata a)) = [alng, alat] \<longrightarrow>
      mongoToTypeSense_area a = Inr
        \<lparr> areaUUID = toUUID_toString aid,
          name = (case area_name a of None \<Rightarrow> '''' | Some s \<Rightarrow> s),
          pathTokens = AreaType.pathTokens a,
          areaLatLng = (Some alat, Some alng),
          leaf = AreaMetadata.leaf (AreaType.metadata a),
          isDestination = AreaMetadata.isDestination (AreaType.metadata a),
          totalClimbs = AreaType.totalClimbs a,
          density = AreaType.density a \<rparr>)"
  by (simp add: mongoToTypeSense_climb_def mongoToTypeSense_area_def nullish_def geoToLatLng_def
      js_index_def)

theorem transformers_total_with_defaults_witness:
  "climb_id (ClimbType.metadata (mergeObjects ex_climb ([''a1'', ''a2''], [''Yosemite'', ''El Capitan'']))) = Some (MUUID ''c1'') \<and>
   coordinates (ClimbMetadata.lnglat (ClimbType.metadata
     (mergeObjects ex_climb ([''a1'', ''a2''], [''Yosemite'', ''El Capitan''])))) = [- 119, 38] \<and>
   area_id (AreaType.metadata ex_area2) = Some (MUUID ''a2'') \<and>
   coordinates (AreaMetadata.lnglat (AreaType.metadata ex_area2)) = [- 119, 38] \<and>
   mongoToTypeSense_climb (\<lambda>t. t) (mergeObjects ex_climb ([''a1'', ''a2''], [''Yosemite'', ''El Capitan''])) = Inr
     \<lparr> climbUUID = ''c1'', climbName = ''The Nose'', climbDesc = '''', fa = '''',
       areaNames = [''Yosemite'', ''El Capitan''], disciplines = [''trad''], grade = ''5.9'',
       safety = ''PG'', cragLatLng = (Some 38, Some (- 119)) \<rparr> \<and>
   mongoToTypeSense_area ex_area2 = Inr
     \<lparr> areaUUID = ''a2'', name = '''', pathTokens = [''Yosemite'', ''El Capitan''],
       areaLatLng = (Some 38, Some (- 119)), leaf = True, isDestination = False,
       totalClimbs = 1, density = 0 \<rparr>"
  using transformers_total_with_defaults
    [where c = "mergeObjects ex_climb ([''a1'', ''a2''], [''Yosemite'', ''El Capitan''])"
       and cid = "MUUID ''c1''" and lng = "- 119" and lat = 38 and dta = "\<lambda>t. t"
       and a = ex_area2 and aid = "MUUID ''a2''" and alng = "- 119" and alat = 38]
  by (simp add: mergeObjects_def ex_climb_def ex_area2_def ClimbType.extend_def ClimbExtType.fields_def)

text \<open>
  C7. The uploader isolates faults by chunk. An empty chunk is a no-op: the world is
  unchanged, no import call is made. For a non-empty chunk the uploader makes one
  import call and returns; when the call fails, the failure is logged and nothing is
  thrown. In a pass whose provisioning returned and whose records are well formed,
  whatever the client answers to each import, the pass returns and its import calls
  are exactly one for each page of the source, in order: a failed chunk stops neither
  the pass nor the chunks after it.
\<close>

theorem chunk_faults_isolated:
  "uploadChunk client schema [] w = w \<and>
   (chunk \<noteq> [] \<longrightarrow>
      trace (uploadChunk client schema chunk w) =
        trace w @ [Log INFO (Pushing (length chunk)), DocumentsImport (name schema) chunk] @
          (case fst (documents_import client (name schema) chunk (dest w)) of
             None \<Rightarrow> [] | Some e \<Rightarrow> [Log ERROR (Caught e)])) \<and>
   (checkCollection (exit_default I) cl (areaSchema I) v = Returned v1 \<and>
    (\<forall>a\<in>set (areas d). area_id (AreaType.metadata a) \<noteq> None) \<longrightarrow>
      (\<exists>v2. updateAreaTypesense I cl d v = Some (Returned v2) \<and>
            filter is_import (trace v2) =
              filter is_import (trace v) @
                map (\<lambda>pg. DocumentsImport (name (areaSchema I))
                             (map (\<lambda>a. AreaItem (projr (mongoToTypeSense_area a))) pg))
                  (pages_of chunkSize (areas d)))) \<and>
   (checkCollection (exit_default I) cl (areaSchema I) v = Returned v1 \<and>
    (\<forall>c\<in>set (aggregate_climbs d). climb_id (ClimbType.metadata c) \<noteq> None) \<longrightarrow>
      (\<exists>v2. updateClimbTypesense I cl d v = Some (Returned v2) \<and>
            filter is_import (trace v2) =
              filter is_import (trace v) @
                map (\<lambda>pg. DocumentsImport (name (climbSchema I))
                             (map (\<lambda>c. ClimbItem (projr (mongoToTypeSense_climb (disciplinesToArray I) c))) pg))
                  (pages_of chunkSize (aggregate_climbs d))))"
  using area_pass_imports [of I cl v v1 d] climb_pass_imports [of I cl v v1 d]
  by (simp add: uploadChunk_Nil uploadChunk_trace)

theorem chunk_faults_isolated_witness:
  "uploadChunk (flaky_client ex_area2_item) \<lparr> name = ''areas'' \<rparr> [] ex_world = ex_world \<and>
   [ex_area2_item] \<noteq> [] \<and>
   trace (uploadChunk (flaky_client ex_area2_item) \<lparr> name = ''areas'' \<rparr> [ex_area2_item] ex_world) =
     [Log INFO (Pushing 1), DocumentsImport ''areas'' [ex_area2_item], Log ERROR (Caught RequestFailed)] \<and>
   checkCollection 0 (flaky_client ex_area2_item) \<lparr> name = ''areas'' \<rparr> ex_world =
     Returned \<lparr> dest = [''areas'' \<mapsto> []],
                trace = [CollectionDelete ''areas'', Log ERROR (Caught ObjectNotFound),
                         CollectionCreate \<lparr> name = ''areas'' \<rparr>, Log ERROR (Created ''areas'')] \<rparr> \<and>
   (\<exists>v2. updateAreaTypesense ex_imports (flaky_client ex_area2_item) ex_db_two_pages ex_world =
            Some (Returned v2) \<and>
         filter is_import (trace v2) =
           [DocumentsImport ''areas'' (replicate 5000 (AreaItem (projr (mongoToTypeSense_area ex_area)))),
            DocumentsImport ''areas'' [ex_area2_item]])"
proof -
  let ?cl = "flaky_client ex_area2_item :: (int Object store, int Object) Client"
  let ?w1 = "\<lparr> dest = [''areas'' \<mapsto> []],
                trace = [CollectionDelete ''areas'', Log ERROR (Caught ObjectNotFound),
                         CollectionCreate \<lparr> name = ''areas'' \<rparr>, Log ERROR (Created ''areas'')] \<rparr>
             :: (int Object store, int Object) world"
  have ck0: "checkCollection 0 ?cl \<lparr> name = ''areas'' \<rparr> ex_world = Returned ?w1"
    by (simp add: checkCollection_eq flaky_client_def store_client_def ex_world_def Let_def)
  then have ck: "checkCollection (exit_default ex_imports) ?cl (areaSchema ex_imports) ex_world = Returned ?w1"
    by (simp add: ex_imports_def)
  have good: "\<forall>a\<in>set (areas ex_db_two_pages). area_id (AreaType.metadata a) \<noteq> None"
    by (simp add: ex_db_two_pages_def ex_area_def ex_area2_def)
  have ne: "[ex_area2_item] \<noteq> []" by simp
  note T = chunk_faults_isolated [where client = ?cl and schema = "\<lparr> name = ''areas'' \<rparr>"
      and w = ex_world and chunk = "[ex_area2_item]" and I = ex_imports and cl = ?cl
      and v = ex_world and ?v1.0 = ?w1 and d = ex_db_two_pages]
  have a: "uploadChunk ?cl \<lparr> name = ''areas'' \<rparr> [] ex_world = ex_world" using T by blast
  have b: "trace (uploadChunk ?cl \<lparr> name = ''areas'' \<rparr> [ex_area2_item] ex_world) =
     [Log INFO (Pushing 1), DocumentsImport ''areas'' [ex_area2_item], Log ERROR (Caught RequestFailed)]"
    using T ne by (simp add: flaky_client_def ex_world_def)
  obtain v2 where v2: "updateAreaTypesense ex_imports ?cl ex_db_two_pages ex_world = Some (Returned v2)"
    and im: "filter is_import (trace v2) =
              filter is_import (trace ex_world) @
                map (\<lambda>pg. DocumentsImport (name (areaSchema ex_imports))
                             (map (\<lambda>a. AreaItem (projr (mongoToTypeSense_area a))) pg))
                  (pages_of chunkSize (areas ex_db_two_pages))"
    using T ck good by blast
  have "filter is_import (trace v2) =
           [DocumentsImport ''areas'' (replicate 5000 (AreaItem (projr (mongoToTypeSense_area ex_area)))),
            DocumentsImport ''areas'' [ex_area2_item]]"
    using im by (simp add: ex_world_def ex_db_two_pages_def pages_of_two_pages ex_imports_def ex_area2_item_def)
  then show ?thesis using a b ne ck0 v2 by blast
qed

text \<open>
  C10. Every chunk handed to the uploader is non-empty and holds at most 5000
  documents. A page either generator yields has between 1 and 5000 records; in a
  run of the job every import call carries between 1 and 5000 documents (the run
  always ends, and the imports already in the trace are taken to be so sized); and
  a pass that returns has made exactly one import call for each page of its source.
\<close>

theorem chunks_bounded:
  fixes v :: "('s, 'n Object) world" and I :: "('s, 'n, 't) module_imports"
  shows
  "(getAllAreas_next d p w = (Some (page, g), w') \<longrightarrow> 1 \<le> length page \<and> length page \<le> 5000) \<and>
   (getAllClimbs_next d p w = (Some (cpage, g), w') \<longrightarrow> 1 \<le> length cpage \<and> length cpage \<le> 5000) \<and>
   ((\<forall>nm ds. DocumentsImport nm ds \<in> set (trace v) \<longrightarrow> 1 \<le> length ds \<and> length ds \<le> 5000) \<longrightarrow>
      (\<exists>out. onDBConnected I env argv d v = Some out \<and>
             (\<forall>nm ds. DocumentsImport nm ds \<in> set (trace (world_of out)) \<longrightarrow>
                        1 \<le> length ds \<and> length ds \<le> 5000))) \<and>
   (updateAreaTypesense I cl d v = Some (Returned v2) \<longrightarrow>
      length (filter is_import (trace v2)) =
        length (filter is_import (trace v)) + page_count 5000 (length (areas d))) \<and>
   (updateClimbTypesense I cl d v = Some (Returned v3) \<longrightarrow>
      length (filter is_import (trace v3)) =
        length (filter is_import (trace v)) + page_count 5000 (length (aggregate_climbs d)))"
proof -
  have a: "getAllAreas_next d p w = (Some (page, g), w') \<longrightarrow> 1 \<le> length page \<and> length page \<le> 5000"
    using paged_next_yield_bounds [of chunkSize AreasFind "areas d" p w page g w']
    by (simp add: getAllAreas_next_paged chunkSize_def)
  have b: "getAllClimbs_next d p w = (Some (cpage, g), w') \<longrightarrow> 1 \<le> length cpage \<and> length cpage \<le> 5000"
    using paged_next_yield_bounds [of chunkSize ClimbsAggregate "aggregate_climbs d" p w cpage g w']
    by (simp add: getAllClimbs_next_paged chunkSize_def)
  have c: "(\<forall>nm ds. DocumentsImport nm ds \<in> set (trace v) \<longrightarrow> 1 \<le> length ds \<and> length ds \<le> 5000) \<longrightarrow>
      (\<exists>out. onDBConnected I env argv d v = Some out \<and>
             (\<forall>nm ds. DocumentsImport nm ds \<in> set (trace (world_of out)) \<longrightarrow>
                        1 \<le> length ds \<and> length ds \<le> 5000))"
    using onDBConnected_chunk_ok [of v I env argv d]
    by (simp only: chunk_ok_iff chunkSize_def) blast
  have e: "updateAreaTypesense I cl d v = Some (Returned v2) \<longrightarrow>
      length (filter is_import (trace v2)) =
        length (filter is_import (trace v)) + page_count 5000 (length (areas d))"
    using area_pass_count [of I cl d v v2] by (simp add: chunkSize_def)
  have f: "updateClimbTypesense I cl d v = Some (Returned v3) \<longrightarrow>
      length (filter is_import (trace v3)) =
        length (filter is_import (trace v)) + page_count 5000 (length (aggregate_climbs d))"
    using climb_pass_count [of I cl d v v3] by (simp add: chunkSize_def)
  show ?thesis using a b c e f by blast
qed

theorem chunks_bounded_witness:
  "getAllAreas_next ex_db 0 ex_world = (Some ([ex_area, ex_area2], 1), emit (AreasFind 0 5000) ex_world) \<and>
   1 \<le> length [ex_area, ex_area2] \<and> length [ex_area, ex_area2] \<le> 5000 \<and>
   trace ex_world = [] \<and>
   (\<exists>out. onDBConnected ex_imports ex_env [''--climbs'', ''--areas''] ex_db ex_world = Some out \<and>
          list_all (chunk_ok 5000) (trace (world_of out))) \<and>
   (\<exists>v2. updateAreaTypesense ex_imports store_client ex_db ex_world = Some (Returned v2) \<and>
         length (filter is_import (trace v2)) = 1)"
proof -
  have nx: "getAllAreas_next ex_db 0 ex_world =
              (Some ([ex_area, ex_area2], 1), emit (AreasFind 0 5000) ex_world)"
    by (simp add: getAllAreas_next_def ex_db_def chunkSize_def)
  have tr: "trace ex_world = []" by (simp add: ex_world_def)
  have ck: "checkCollection (exit_default ex_imports) store_client (areaSchema ex_imports) ex_world =
              Returned \<lparr> dest = [''areas'' \<mapsto> []],
                trace = [CollectionDelete ''areas'', Log ERROR (Caught ObjectNotFound),
                         CollectionCreate \<lparr> name = ''areas'' \<rparr>, Log ERROR (Created ''areas'')] \<rparr>"
    by (simp add: checkCollection_eq store_client_def ex_world_def ex_imports_def Let_def)
  have good: "\<forall>a\<in>set (areas ex_db). area_id (AreaType.metadata a) \<noteq> None"
    by (simp add: ex_db_def ex_area_def ex_area2_def)
  obtain v2 where v2: "updateAreaTypesense ex_imports store_client ex_db ex_world = Some (Returned v2)"
    using area_pass_imports [OF ck good] by blast
  note T = chunks_bounded [where d = ex_db and p = 0 and w = ex_world and page = "[ex_area, ex_area2]"
      and g = 1 and w' = "emit (AreasFind 0 5000) ex_world" and v = ex_world and I = ex_imports
      and env = ex_env and argv = "[''--climbs'', ''--areas'']" and cl = store_client and ?v2.0 = v2
      and cpage = "[]" and ?v3.0 = v2]
  have b: "1 \<le> length [ex_area, ex_area2] \<and> length [ex_area, ex_area2] \<le> 5000"
    using T nx by blast
  obtain out where out: "onDBConnected ex_imports ex_env [''--climbs'', ''--areas''] ex_db ex_world = Some out"
    and ok: "\<forall>nm ds. DocumentsImport nm ds \<in> set (trace (world_of out)) \<longrightarrow>
                        1 \<le> length ds \<and> length ds \<le> 5000"
    using T [THEN conjunct2, THEN conjunct2, THEN conjunct1] tr by auto
  have "list_all (chunk_ok 5000) (trace (world_of out))"
    using ok by (simp only: list_all_iff chunk_ok_iff)
  moreover have "length (filter is_import (trace v2)) = 1"
    using T [THEN conjunct2, THEN conjunct2, THEN conjunct2, THEN conjunct1] v2
    by (simp add: tr ex_db_def page_count_def)
  ultimately show ?thesis using nx b tr out v2 by blast
qed

text \<open>
  C8. A transform failure is not caught at the chunk. Either transformer throws a
  TypeError on a record that lacks its identifier. In a pass whose provisioning
  returned and whose source holds such a record, the pass throws that TypeError: it
  ends with the read of the first page \<open>j\<close> that holds a malformed record, having
  made the import calls of the \<open>j\<close> pages before it and none for page \<open>j\<close>; nothing
  is logged for the failure and no later page is read. At the entry point the
  exception of the climbs pass is the outcome of the run: no later pass runs and
  \<^verbatim>\<open>gracefulExit\<close> is not reached.
\<close>

theorem transform_failure_propagates:
  fixes v :: "('s, 'n Object) world" and I :: "('s, 'n, 't) module_imports"
  shows
  "(climb_id (ClimbType.metadata c) = None \<longrightarrow> mongoToTypeSense_climb dta c = Inl TypeError) \<and>
   (area_id (AreaType.metadata a) = None \<longrightarrow> mongoToTypeSense_area a = Inl TypeError) \<and>
   (checkCollection (exit_default I) cl (areaSchema I) v = Returned v1 \<and>
    (\<exists>c\<in>set (aggregate_climbs d). climb_id (ClimbType.metadata c) = None) \<longrightarrow>
      (\<exists>v2 j. updateClimbTypesense I cl d v = Some (Threw TypeError v2) \<and>
              j < page_count chunkSize (length (aggregate_climbs d)) \<and>
              (\<exists>c\<in>set (pages_of chunkSize (aggregate_climbs d) ! j).
                 climb_id (ClimbType.metadata c) = None) \<and>
              last (trace v2) = ClimbsAggregate (j * chunkSize) chunkSize \<and>
              length (filter is_import (trace v2)) = length (filter is_import (trace v)) + j)) \<and>
   (checkCollection (exit_default I) cl (areaSchema I) v = Returned v1 \<and>
    (\<exists>a\<in>set (areas d). area_id (AreaType.metadata a) = None) \<longrightarrow>
      (\<exists>v2 j. updateAreaTypesense I cl d v = Some (Threw TypeError v2) \<and>
              j < page_count chunkSize (length (areas d)) \<and>
              (\<exists>a\<in>set (pages_of chunkSize (areas d) ! j). area_id (AreaType.metadata a) = None) \<and>
              last (trace v2) = AreasFind (j * chunkSize) chunkSize \<and>
              length (filter is_import (trace v2)) = length (filter is_import (trace v)) + j)) \<and>
   (env ''TYPESENSE_NODE'' = Some node \<and> node \<noteq> '''' \<and>
    env ''TYPESENSE_API_KEY'' = Some apiKey \<and> apiKey \<noteq> '''' \<and>
    ''--climbs'' \<in> set argv \<and>
    checkCollection (exit_default I) (Typesense_Client I node apiKey) (areaSchema I)
      (emit (Log INFO StartPushing) v) = Returned u1 \<and>
    (\<exists>c\<in>set (aggregate_climbs d). climb_id (ClimbType.metadata c) = None) \<longrightarrow>
      (\<exists>v2. onDBConnected I env argv d v = Some (Threw TypeError v2)))"
proof -
  have t1: "climb_id (ClimbType.metadata c) = None \<longrightarrow> mongoToTypeSense_climb dta c = Inl TypeError"
    by (simp add: mongoToTypeSense_climb_def)
  have t2: "area_id (AreaType.metadata a) = None \<longrightarrow> mongoToTypeSense_area a = Inl TypeError"
    by (simp add: mongoToTypeSense_area_def)
  have t3: "checkCollection (exit_default I) cl (areaSchema I) v = Returned v1 \<and>
    (\<exists>c\<in>set (aggregate_climbs d). climb_id (ClimbType.metadata c) = None) \<longrightarrow>
      (\<exists>v2 j. updateClimbTypesense I cl d v = Some (Threw TypeError v2) \<and>
              j < page_count chunkSize (length (aggregate_climbs d)) \<and>
              (\<exists>c\<in>set (pages_of chunkSize (aggregate_climbs d) ! j).
                 climb_id (ClimbType.metadata c) = None) \<and>
              last (trace v2) = ClimbsAggregate (j * chunkSize) chunkSize \<and>
              length (filter is_import (trace v2)) = length (filter is_import (trace v)) + j)"
    using climb_pass_Threw [of I cl v v1 d] by blast
  have t4: "checkCollection (exit_default I) cl (areaSchema I) v = Returned v1 \<and>
    (\<exists>a\<in>set (areas d). area_id (AreaType.metadata a) = None) \<longrightarrow>
      (\<exists>v2 j. updateAreaTypesense I cl d v = Some (Threw TypeError v2) \<and>
              j < page_count chunkSize (length (areas d)) \<and>
              (\<exists>a\<in>set (pages_of chunkSize (areas d) ! j). area_id (AreaType.metadata a) = None) \<and>
              last (trace v2) = AreasFind (j * chunkSize) chunkSize \<and>
              length (filter is_import (trace v2)) = length (filter is_import (trace v)) + j)"
    using area_pass_Threw [of I cl v v1 d] by blast
  have t5: "env ''TYPESENSE_NODE'' = Some node \<and> node \<noteq> '''' \<and>
    env ''TYPESENSE_API_KEY'' = Some apiKey \<and> apiKey \<noteq> '''' \<and>
    ''--climbs'' \<in> set argv \<and>
    checkCollection (exit_default I) (Typesense_Client I node apiKey) (areaSchema I)
      (emit (Log INFO StartPushing) v) = Returned u1 \<and>
    (\<exists>c\<in>set (aggregate_climbs d). climb_id (ClimbType.metadata c) = None) \<longrightarrow>
      (\<exists>v2. onDBConnected I env argv d v = Some (Threw TypeError v2))"
  proof (intro impI, elim conjE)
    assume e: "env ''TYPESENSE_NODE'' = Some node" "node \<noteq> ''''"
      "env ''TYPESENSE_API_KEY'' = Some apiKey" "apiKey \<noteq> ''''" "''--climbs'' \<in> set argv"
      and ck: "checkCollection (exit_default I) (Typesense_Client I node apiKey) (areaSchema I)
                 (emit (Log INFO StartPushing) v) = Returned u1"
      and bad: "\<exists>c\<in>set (aggregate_climbs d). climb_id (ClimbType.metadata c) = None"
    obtain v2 where "updateClimbTypesense I (Typesense_Client I node apiKey) d
        (emit (Log INFO StartPushing) v) = Some (Threw TypeError v2)"
      using climb_pass_Threw [OF ck bad] by blast
    then have "onDBConnected I env argv d v = Some (Threw TypeError v2)"
      using e by (simp add: onDBConnected_def nullish_def Let_def and_then_def)
    then show "\<exists>v2. onDBConnected I env argv d v = Some (Threw TypeError v2)" by blast
  qed
  show ?thesis using t1 t2 t3 t4 t5 by blast
qed

theorem transform_failure_propagates_witness:
  "climb_id (ClimbType.metadata (mergeObjects ex_climb_bad ([''a1'', ''a2''], [''Yosemite'', ''El Capitan'']))) = None \<and>
   mongoToTypeSense_climb (\<lambda>t. t) (mergeObjects ex_climb_bad ([''a1'', ''a2''], [''Yosemite'', ''El Capitan''])) =
     Inl TypeError \<and>
   area_id (AreaType.metadata ex_area_bad) = None \<and>
   mongoToTypeSense_area ex_area_bad = Inl TypeError \<and>
   checkCollection 0 store_client \<lparr> name = ''areas'' \<rparr> ex_world =
     Returned \<lparr> dest = [''areas'' \<mapsto> []],
                trace = [CollectionDelete ''areas'', Log ERROR (Caught ObjectNotFound),
                         CollectionCreate \<lparr> name = ''areas'' \<rparr>, Log ERROR (Created ''areas'')] \<rparr> \<and>
   (\<exists>v2. updateClimbTypesense ex_imports store_client ex_db_bad ex_world = Some (Threw TypeError v2) \<and>
         last (trace v2) = ClimbsAggregate 0 5000 \<and> filter is_import (trace v2) = []) \<and>
   (\<exists>v2. updateAreaTypesense ex_imports store_client ex_db_bad ex_world = Some (Threw TypeError v2) \<and>
         last (trace v2) = AreasFind 0 5000 \<and> filter is_import (trace v2) = []) \<and>
   (\<exists>v2. onDBConnected ex_imports ex_env [''--climbs'', ''--areas''] ex_db_bad ex_world =
           Some (Threw TypeError v2))"
proof -
  let ?c = "mergeObjects ex_climb_bad ([''a1'', ''a2''], [''Yosemite'', ''El Capitan''])"
  let ?w1 = "\<lparr> dest = [''areas'' \<mapsto> []],
                trace = [CollectionDelete ''areas'', Log ERROR (Caught ObjectNotFound),
                         CollectionCreate \<lparr> name = ''areas'' \<rparr>, Log ERROR (Created ''areas'')] \<rparr>
             :: (int Object store, int Object) world"
  let ?u1 = "\<lparr> dest = [''areas'' \<mapsto> []],
                trace = [Log INFO StartPushing,
                         CollectionDelete ''areas'', Log ERROR (Caught ObjectNotFound),
                         CollectionCreate \<lparr> name = ''areas'' \<rparr>, Log ERROR (Created ''areas'')] \<rparr>
             :: (int Object store, int Object) world"
  have c: "climb_id (ClimbType.metadata ?c) = None"
    by (simp add: mergeObjects_def ex_climb_bad_def ex_climb_def ClimbType.extend_def)
  have a: "area_id (AreaType.metadata ex_area_bad) = None"
    by (simp add: ex_area_bad_def)
  have ck0: "checkCollection 0 store_client \<lparr> name = ''areas'' \<rparr> ex_world = Returned ?w1"
    by (simp add: checkCollection_eq store_client_def ex_world_def Let_def)
  then have ck: "checkCollection (exit_default ex_imports) store_client (areaSchema ex_imports) ex_world =
                   Returned ?w1"
    by (simp add: ex_imports_def)
  have cku: "checkCollection (exit_default ex_imports)
               (Typesense_Client ex_imports ''search.example.org'' ''xyz'') (areaSchema ex_imports)
               (emit (Log INFO StartPushing) ex_world) = Returned ?u1"
    by (simp add: checkCollection_eq store_client_def ex_world_def ex_imports_def emit_def Let_def)
  have badc: "\<exists>c\<in>set (aggregate_climbs ex_db_bad). climb_id (ClimbType.metadata c) = None"
    using c by (simp add: aggregate_climbs_ex_db_bad)
  have bada: "\<exists>a\<in>set (areas ex_db_bad). area_id (AreaType.metadata a) = None"
    using a by (simp add: ex_db_bad_def)
  have env: "ex_env ''TYPESENSE_NODE'' = Some ''search.example.org''" "''search.example.org'' \<noteq> ''''"
    "ex_env ''TYPESENSE_API_KEY'' = Some ''xyz''" "''xyz'' \<noteq> ''''"
    "''--climbs'' \<in> set [''--climbs'', ''--areas'']"
    by (simp_all add: ex_env_def)
  note T = transform_failure_propagates [where c = ?c and dta = "\<lambda>t. t" and a = ex_area_bad
      and I = ex_imports and cl = store_client and v = ex_world and ?v1.0 = ?w1 and d = ex_db_bad
      and env = ex_env and node = "''search.example.org''" and apiKey = "''xyz''"
      and argv = "[''--climbs'', ''--areas'']" and ?u1.0 = ?u1]
  have r1: "mongoToTypeSense_climb (\<lambda>t. t) ?c = Inl TypeError"
    using T [THEN conjunct1] c by blast
  have r2: "mongoToTypeSense_area ex_area_bad = Inl TypeError"
    using T [THEN conjunct2, THEN conjunct1] a by blast
  have pc1: "page_count chunkSize (length (aggregate_climbs ex_db_bad)) = 1"
    by (simp add: aggregate_climbs_ex_db_bad page_count_def chunkSize_def)
  have pc2: "page_count chunkSize (length (areas ex_db_bad)) = 1"
    by (simp add: ex_db_bad_def page_count_def chunkSize_def)
  note pc = pc1 pc2
  obtain v2 j where f: "updateClimbTypesense ex_imports store_client ex_db_bad ex_world = Some (Threw TypeError v2)"
    "last (trace v2) = ClimbsAggregate (j * chunkSize) chunkSize"
    "length (filter is_import (trace v2)) = length (filter is_import (trace ex_world)) + j"
    and j: "j < page_count chunkSize (length (aggregate_climbs ex_db_bad))"
    using T [THEN conjunct2, THEN conjunct2, THEN conjunct1] ck badc by blast
  have "j = 0" using j by (simp add: pc1)
  with f have r3: "\<exists>v2. updateClimbTypesense ex_imports store_client ex_db_bad ex_world = Some (Threw TypeError v2) \<and>
         last (trace v2) = ClimbsAggregate 0 5000 \<and> filter is_import (trace v2) = []"
    by (auto simp: chunkSize_def ex_world_def)
  obtain v3 k where g: "updateAreaTypesense ex_imports store_client ex_db_bad ex_world = Some (Threw TypeError v3)"
    "last (trace v3) = AreasFind (k * chunkSize) chunkSize"
    "length (filter is_import (trace v3)) = length (filter is_import (trace ex_world)) + k"
    and k: "k < page_count chunkSize (length (areas ex_db_bad))"
    using T [THEN conjunct2, THEN conjunct2, THEN conjunct2, THEN conjunct1] ck bada by blast
  have "k = 0" using k by (simp add: pc2)
  with g have r4: "\<exists>v2. updateAreaTypesense ex_imports store_client ex_db_bad ex_world = Some (Threw TypeError v2) \<and>
         last (trace v2) = AreasFind 0 5000 \<and> filter is_import (trace v2) = []"
    by (auto simp: chunkSize_def ex_world_def)
  have r5: "\<exists>v2. onDBConnected ex_imports ex_env [''--climbs'', ''--areas''] ex_db_bad ex_world =
           Some (Threw TypeError v2)"
    using T [THEN conjunct2, THEN conjunct2, THEN conjunct2, THEN conjunct2] env cku badc by blast
  show ?thesis using c r1 a r2 ck0 r3 r4 r5 by blast
qed

text \<open>
  C1. With both flags the job runs the climbs pass and then the areas pass, and each
  pass provisions a collection before it uploads. The collection the climbs pass
  drops and recreates is the one named by the area schema, not by the climb schema:
  for every client, store and starting world, the provisioning calls of the climbs
  pass are the deletion and the creation of the area schema's collection. On the
  sample store (an empty destination, schemas named climbs and areas) the run with
  both flags never creates the collection climbs, its import of the climbs fails
  with ObjectNotFound, and the deletion and the creation of the collection areas are
  each called twice.
\<close>

theorem climbs_pass_provisions_area_schema:
  "(\<exists>out. updateClimbTypesense I cl d v = Some out \<and>
          filter is_provision (trace (world_of out)) =
            filter is_provision (trace v) @
              [CollectionDelete (name (areaSchema I)), CollectionCreate (areaSchema I)]) \<and>
   map_option (\<lambda>out. (exit_code out, dest (world_of out) ''climbs'', trace (world_of out)))
     (onDBConnected ex_imports ex_env [''--climbs'', ''--areas''] ex_db ex_world) =
     Some (Some 0, None,
       [Log INFO StartPushing,
        CollectionDelete ''areas'', Log ERROR (Caught ObjectNotFound),
        CollectionCreate \<lparr> name = ''areas'' \<rparr>, Log ERROR (Created ''areas''),
        ClimbsAggregate 0 5000, Log INFO (Pushing 1),
        DocumentsImport ''climbs''
          [ClimbItem \<lparr> climbUUID = ''c1'', climbName = ''The Nose'', climbDesc = '''', fa = '''',
             areaNames = [''Yosemite'', ''El Capitan''], disciplines = [''trad''], grade = ''5.9'',
             safety = ''PG'', cragLatLng = (Some 38, Some (- 119)) \<rparr>],
        Log ERROR (Caught ObjectNotFound),
        ClimbsAggregate 5000 5000, Log INFO ClimbsPushed,
        CollectionDelete ''areas'', Log ERROR (Dropped ''areas''),
        CollectionCreate \<lparr> name = ''areas'' \<rparr>, Log ERROR (Created ''areas''),
        AreasFind 0 5000, Log INFO (Pushing 2),
        DocumentsImport ''areas''
          [AreaItem \<lparr> areaUUID = ''a1'', name = ''Yosemite'', pathTokens = [''Yosemite''],
             areaLatLng = (Some 37, Some (- 119)), leaf = False, isDestination = True,
             totalClimbs = 1, density = 0 \<rparr>,
           AreaItem \<lparr> areaUUID = ''a2'', name = '''', pathTokens = [''Yosemite'', ''El Capitan''],
             areaLatLng = (Some 38, Some (- 119)), leaf = True, isDestination = False,
             totalClimbs = 1, density = 0 \<rparr>],
        AreasFind 5000 5000, Log INFO AreasPushed])"
proof -
  have run: "map_option (\<lambda>out. (exit_code out, dest (world_of out) ''climbs'', trace (world_of out)))
     (onDBConnected ex_imports ex_env [''--climbs'', ''--areas''] ex_db ex_world) =
     Some (Some 0, None,
       [Log INFO StartPushing,
        CollectionDelete ''areas'', Log ERROR (Caught ObjectNotFound),
        CollectionCreate \<lparr> name = ''areas'' \<rparr>, Log ERROR (Created ''areas''),
        ClimbsAggregate 0 5000, Log INFO (Pushing 1),
        DocumentsImport ''climbs''
          [ClimbItem \<lparr> climbUUID = ''c1'', climbName = ''The Nose'', climbDesc = '''', fa = '''',
             areaNames = [''Yosemite'', ''El Capitan''], disciplines = [''trad''], grade = ''5.9'',
             safety = ''PG'', cragLatLng = (Some 38, Some (- 119)) \<rparr>],
        Log ERROR (Caught ObjectNotFound),
        ClimbsAggregate 5000 5000, Log INFO ClimbsPushed,
        CollectionDelete ''areas'', Log ERROR (Dropped ''areas''),
        CollectionCreate \<lparr> name = ''areas'' \<rparr>, Log ERROR (Created ''areas''),
        AreasFind 0 5000, Log INFO (Pushing 2),
        DocumentsImport ''areas''
          [AreaItem \<lparr> areaUUID = ''a1'', name = ''Yosemite'', pathTokens = [''Yosemite''],
             areaLatLng = (Some 37, Some (- 119)), leaf = False, isDestination = True,
             totalClimbs = 1, density = 0 \<rparr>,
           AreaItem \<lparr> areaUUID = ''a2'', name = '''', pathTokens = [''Yosemite'', ''El Capitan''],
             areaLatLng = (Some 38, Some (- 119)), leaf = True, isDestination = False,
             totalClimbs = 1, density = 0 \<rparr>],
        AreasFind 5000 5000, Log INFO AreasPushed])"
    by (simp add: run_defs ex_defs)
  show ?thesis using climb_pass_provisions [of I cl d v] run by blast
qed

text \<open>
  C2. When the creation of the collection fails the run ends there, through
  \<^verbatim>\<open>gracefulExit\<close>: after the failed creation the trace holds only the log line of the
  failure, no read of the source and no import. But \<^verbatim>\<open>checkCollection\<close> calls
  \<^verbatim>\<open>gracefulExit()\<close> without an exit code, as the end of a completed run does: whatever
  the default \<open>c\<close> of \<^verbatim>\<open>gracefulExit\<close> is, the run whose creation fails and the run that
  completes exit with the same code \<open>c\<close>.
\<close>

theorem creation_failure_exit_code:
  "map_option (\<lambda>out. (exit_code out, trace (world_of out)))
     (onDBConnected
        (ex_imports\<lparr> exit_default := c, Typesense_Client := (\<lambda>node apiKey. refusing_client) \<rparr>)
        ex_env [''--areas''] ex_db ex_world) =
     Some (Some c,
       [Log INFO StartPushing,
        CollectionDelete ''areas'', Log ERROR (Caught ObjectNotFound),
        CollectionCreate \<lparr> name = ''areas'' \<rparr>, Log ERROR (Caught RequestFailed)]) \<and>
   map_option exit_code
     (onDBConnected (ex_imports\<lparr> exit_default := c \<rparr>) ex_env [''--areas''] ex_db ex_world) =
     Some (Some c)"
  by (simp add: run_defs ex_defs)

text \<open>
  C9. The climbs pass is not idempotent. The collection it uploads to is never
  dropped (the pass drops the area schema's collection instead), so on a destination
  that holds the collection climbs a second pass over the same source imports the
  same documents again: one pass leaves one document for the one climb of the sample
  source, two passes in a row leave two.
\<close>

theorem climbs_pass_twice_duplicates:
  "map_option (\<lambda>out. map_option length (dest (world_of out) ''climbs''))
     (updateClimbTypesense ex_imports store_client ex_db ex_world_climbs) = Some (Some 1) \<and>
   map_option (\<lambda>out. map_option length (dest (world_of out) ''climbs''))
     (and_then (updateClimbTypesense ex_imports store_client ex_db ex_world_climbs)
        (updateClimbTypesense ex_imports store_client ex_db)) = Some (Some 2) \<and>
   map_option (\<lambda>out. dest (world_of out) ''climbs'')
     (and_then (updateClimbTypesense ex_imports store_client ex_db ex_world_climbs)
        (updateClimbTypesense ex_imports store_client ex_db)) =
     Some (Some
       [ClimbItem \<lparr> climbUUID = ''c1'', climbName = ''The Nose'', climbDesc = '''', fa = '''',
          areaNames = [''Yosemite'', ''El Capitan''], disciplines = [''trad''], grade = ''5.9'',
          safety = ''PG'', cragLatLng = (Some 38, Some (- 119)) \<rparr>,
        ClimbItem \<lparr> climbUUID = ''c1'', climbName = ''The Nose'', climbDesc = '''', fa = '''',
          areaNames = [''Yosemite'', ''El Capitan''], disciplines = [''trad''], grade = ''5.9'',
          safety = ''PG'', cragLatLng = (Some 38, Some (- 119)) \<rparr>])"
  by (simp add: run_defs ex_defs)

section \<open>Further properties of the passes\<close>

text \<open>
  Creation failure, in general. Whatever the client, the schema, the converter and the generator of a pass: when
  the creation of the collection fails, the pass ends in the exit of the process with
  the default code of \<^verbatim>\<open>gracefulExit\<close>, and all it has done is the deletion, the creation
  and their two log lines; no page is read and nothing is imported.
\<close>

theorem creation_failure_aborts_pass:
  assumes "fst (collections_create cl (areaSchema I)
                  (snd (collections_delete cl (name (areaSchema I)) (dest v)))) = Some e"
  shows "\<exists>v1. processMongoCollection I cl schema convert gen v = Some (Exited (exit_default I) v1) \<and>
              trace v1 = trace v @
                [CollectionDelete (name (areaSchema I)),
                 Log ERROR (case fst (collections_delete cl (name (areaSchema I)) (dest v)) of
                              None \<Rightarrow> Dropped (name (areaSchema I)) | Some e' \<Rightarrow> Caught e'),
                 CollectionCreate (areaSchema I),
                 Log ERROR (Caught e)]"
  using assms by (simp add: processMongoCollection_def checkCollection_eq and_then_def Let_def)

theorem creation_failure_aborts_pass_witness:
  "fst (collections_create refusing_client (areaSchema ex_imports)
          (snd (collections_delete refusing_client (name (areaSchema ex_imports)) (dest ex_world)))) =
     Some RequestFailed \<and>
   (\<exists>v1. processMongoCollection ex_imports refusing_client (areaSchema ex_imports)
            (\<lambda>doc. map_sum id AreaItem (mongoToTypeSense_area doc)) (getAllAreas ex_db) ex_world =
            Some (Exited 0 v1) \<and>
         trace v1 =
           [CollectionDelete ''areas'', Log ERROR (Caught ObjectNotFound),
            CollectionCreate \<lparr> name = ''areas'' \<rparr>, Log ERROR (Caught RequestFailed)])"
proof -
  have h: "fst (collections_create refusing_client (areaSchema ex_imports)
          (snd (collections_delete refusing_client (name (areaSchema ex_imports)) (dest ex_world)))) =
     Some RequestFailed"
    by (simp add: refusing_client_def store_client_def)
  show ?thesis
    using h creation_failure_aborts_pass [OF h, of "areaSchema ex_imports"
        "\<lambda>doc. map_sum id AreaItem (mongoToTypeSense_area doc)" "getAllAreas ex_db"]
    by (simp add: ex_imports_def ex_world_def refusing_client_def store_client_def)
qed

text \<open>
  The areas pass on the sample destination. On the sample destination the areas pass is idempotent: over a source of
  well-formed areas the pass returns, the collection of the area schema then holds
  exactly the documents of the areas, in order, and a second pass over the same source
  leaves the destination as the first left it.
\<close>

theorem area_pass_idempotent:
  assumes "\<forall>a\<in>set (areas d). area_id (AreaType.metadata a) \<noteq> None"
  shows "\<exists>v1 v2. updateAreaTypesense I store_client d v = Some (Returned v1) \<and>
                updateAreaTypesense I store_client d v1 = Some (Returned v2) \<and>
                dest v2 = dest v1 \<and>
                dest v1 (name (areaSchema I)) =
                  Some (map (\<lambda>a. AreaItem (projr (mongoToTypeSense_area a))) (areas d))"
proof -
  obtain v1 where v1: "updateAreaTypesense I store_client d v = Some (Returned v1)"
    "dest v1 = (dest v)(name (areaSchema I) \<mapsto>
                 map (\<lambda>a. AreaItem (projr (mongoToTypeSense_area a))) (areas d))"
    using area_pass_store [OF assms] by blast
  obtain v2 where v2: "updateAreaTypesense I store_client d v1 = Some (Returned v2)"
    "dest v2 = (dest v1)(name (areaSchema I) \<mapsto>
                 map (\<lambda>a. AreaItem (projr (mongoToTypeSense_area a))) (areas d))"
    using area_pass_store [OF assms] by blast
  have "dest v2 = dest v1" by (simp only: v2(2) v1(2) fun_upd_upd)
  moreover have "dest v1 (name (areaSchema I)) =
      Some (map (\<lambda>a. AreaItem (projr (mongoToTypeSense_area a))) (areas d))"
    by (simp add: v1(2))
  ultimately show ?thesis using v1(1) v2(1) by blast
qed

theorem area_pass_idempotent_witness:
  "area_id (AreaType.metadata ex_area) \<noteq> None \<and> area_id (AreaType.metadata ex_area2) \<noteq> None \<and>
   (\<exists>v1 v2. updateAreaTypesense ex_imports store_client ex_db ex_world = Some (Returned v1) \<and>
            updateAreaTypesense ex_imports store_client ex_db v1 = Some (Returned v2) \<and>
            dest v2 = dest v1 \<and>
            dest v1 ''areas'' =
              Some [AreaItem \<lparr> areaUUID = ''a1'', name = ''Yosemite'', pathTokens = [''Yosemite''],
                      areaLatLng = (Some 37, Some (- 119)), leaf = False, isDestination = True,
                      totalClimbs = 1, density = 0 \<rparr>,
                    AreaItem \<lparr> areaUUID = ''a2'', name = '''', pathTokens = [''Yosemite'', ''El Capitan''],
                      areaLatLng = (Some 38, Some (- 119)), leaf = True, isDestination = False,
                      totalClimbs = 1, density = 0 \<rparr>])"
proof -
  have g1: "area_id (AreaType.metadata ex_area) \<noteq> None" by (simp add: ex_area_def)
  have g2: "area_id (AreaType.metadata ex_area2) \<noteq> None" by (simp add: ex_area2_def)
  have h: "\<forall>a\<in>set (areas ex_db). area_id (AreaType.metadata a) \<noteq> None"
    using g1 g2 by (simp add: ex_db_def)
  obtain v1 v2 where r: "updateAreaTypesense ex_imports store_client ex_db ex_world = Some (Returned v1)"
      "updateAreaTypesense ex_imports store_client ex_db v1 = Some (Returned v2)"
      "dest v2 = dest v1"
    and d: "dest v1 (name (areaSchema ex_imports)) =
              Some (map (\<lambda>a. AreaItem (projr (mongoToTypeSense_area a))) (areas ex_db))"
    using area_pass_idempotent [OF h, of ex_imports ex_world] by blast
  have "dest v1 ''areas'' =
              Some [AreaItem \<lparr> areaUUID = ''a1'', name = ''Yosemite'', pathTokens = [''Yosemite''],
                      areaLatLng = (Some 37, Some (- 119)), leaf = False, isDestination = True,
                      totalClimbs = 1, density = 0 \<rparr>,
                    AreaItem \<lparr> areaUUID = ''a2'', name = '''', pathTokens = [''Yosemite'', ''El Capitan''],
                      areaLatLng = (Some 38, Some (- 119)), leaf = True, isDestination = False,
                      totalClimbs = 1, density = 0 \<rparr>]"
    using d by (simp add: ex_imports_def ex_db_def ex_area_def ex_area2_def mongoToTypeSense_area_def
        nullish_def geoToLatLng_def js_index_def)
  then show ?thesis using g1 g2 r by blast
qed

text \<open>
  The join of the climbs. The join of \<^verbatim>\<open>getAllClimbs\<close> keeps one record for each pair of a climb and an area
  whose identifier the climb references. When every climb references exactly one area
  the joined source has as many records as there are climbs; a climb that references
  no area of the store is not in the joined source, so it is never exported.
\<close>

theorem climbs_join_size:
  "((\<forall>c\<in>set (climbs d).
       length (filter (\<lambda>a. area_id (AreaType.metadata a) = Some (areaRef (ClimbType.metadata c)))
                 (areas d)) = 1) \<longrightarrow>
      length (aggregate_climbs d) = length (climbs d)) \<and>
   ((\<forall>c\<in>set (climbs d). \<forall>a\<in>set (areas d).
       area_id (AreaType.metadata a) \<noteq> Some (areaRef (ClimbType.metadata c))) \<longrightarrow>
      aggregate_climbs d = [])"
proof -
  have "(\<forall>c\<in>set (climbs d). \<forall>a\<in>set (areas d).
       area_id (AreaType.metadata a) \<noteq> Some (areaRef (ClimbType.metadata c))) \<longrightarrow>
      aggregate_climbs d = []"
    by (auto simp: aggregate_climbs_def lookup_areas_def filter_empty_conv)
  then show ?thesis using aggregate_climbs_length [of d] by blast
qed

theorem climbs_join_size_witness:
  "length (filter (\<lambda>a. area_id (AreaType.metadata a) = Some (areaRef (ClimbType.metadata ex_climb)))
             (areas ex_db)) = 1 \<and>
   length (aggregate_climbs ex_db) = length (climbs ex_db) \<and>
   aggregate_climbs (ex_db\<lparr> areas := [ex_area] \<rparr>) = []"
proof -
  have h1: "length (filter (\<lambda>a. area_id (AreaType.metadata a) = Some (areaRef (ClimbType.metadata ex_climb)))
             (areas ex_db)) = 1"
    by (simp add: ex_db_def ex_area_def ex_area2_def ex_climb_def)
  then have h1': "\<forall>c\<in>set (climbs ex_db).
       length (filter (\<lambda>a. area_id (AreaType.metadata a) = Some (areaRef (ClimbType.metadata c)))
                 (areas ex_db)) = 1"
    by (simp add: ex_db_def)
  have h2: "\<forall>c\<in>set (climbs (ex_db\<lparr> areas := [ex_area] \<rparr>)). \<forall>a\<in>set (areas (ex_db\<lparr> areas := [ex_area] \<rparr>)).
       area_id (AreaType.metadata a) \<noteq> Some (areaRef (ClimbType.metadata c))"
    by (simp add: ex_db_def ex_area_def ex_climb_def)
  show ?thesis
    using h1 climbs_join_size [of ex_db, THEN conjunct1] h1'
      climbs_join_size [of "ex_db\<lparr> areas := [ex_area] \<rparr>", THEN conjunct2] h2
    by blast
qed

end
